theory Spec2Isabelle
  imports Main "HOL-Library.AList"
begin

section \<open>The agent registry of porter: \<open>src/managers/AgentManager.ts\<close>\<close>

text \<open>
  A shallow embedding of the class \<open>AgentManager\<close>. The two JavaScript \<open>Map\<close>s are
  association lists in insertion order (\<open>Map.set\<close> on a present key keeps its place,
  on a new key appends: \<open>AList.update\<close>; \<open>Map.delete\<close> is \<open>AList.delete\<close>). A
  \<open>Set\<close> of objects is a list in insertion order whose membership test compares object
  identity, which the model carries as a reference number in the object.

  What the environment supplies is a parameter: the manifest and the \<open>URL\<close>
  constructor (\<open>Browser\<close>), the value \<open>uuidv4()\<close> returns when it is called
  (\<open>fresh\<close>) and the reading of \<open>Date.now()\<close> (\<open>now\<close>). The logger is write-only and
  is left out. A handler is an observer: it returns or throws, and it does not call back
  into the manager.
\<close>

subsection \<open>Data\<close>

type_synonym AgentId = string

text \<open>
  Modelled from the spec: the enum \<open>PorterContext\<close> is declared in \<open>porter.model\<close>,
  which is not among the sources. The source names the members \<open>ContentScript\<close> and
  \<open>Unknown\<close> and casts the seven keys of \<open>pageMatchers\<close> to the enum; the spec lists
  the same nine kinds. The members are distinct non-empty strings, so each is truthy.
\<close>

datatype PorterContext =
  ContentScript | Sidepanel | Options | Popup | Devtools | Newtab | Bookmarks | History
  | Unknown

record BrowserLocation =
  loc_context :: PorterContext
  loc_tabId :: int
  loc_frameId :: int

text \<open>\<open>Partial<BrowserLocation>\<close>: every field may be absent.\<close>

record PartialLocation =
  part_context :: "PorterContext option"
  part_tabId :: "int option"
  part_frameId :: "int option"

record AgentInfo =
  info_id :: AgentId
  location :: BrowserLocation
  createdAt :: int
  lastActiveAt :: int

record Tab =
  tab_id :: "int option"

record MessageSender =
  sender_tab :: "Tab option"
  sender_url :: "string option"
  sender_frameId :: "int option"

text \<open>A \<open>Runtime.Port\<close>: \<open>port_ref\<close> is the identity of the object.\<close>

record Port =
  port_ref :: nat
  port_name :: string
  sender :: "MessageSender option"

record Agent =
  ports :: "Port list"
  info :: AgentInfo

text \<open>The fields of the manifest that \<open>identifyConnectionSource\<close> reads.\<close>

record Manifest =
  side_panel_default_path :: "string option"
  options_page :: "string option"
  action_default_popup :: "string option"
  devtools_page :: "string option"
  overrides_newtab :: "string option"
  overrides_bookmarks :: "string option"
  overrides_history :: "string option"

text \<open>
  \<open>getManifest\<close> is \<open>browser.runtime.getManifest()\<close>; \<open>URL_pathname u\<close> is
  \<open>new URL(u).pathname\<close>, \<open>None\<close> when the constructor throws a \<open>TypeError\<close>.
\<close>

record Browser =
  getManifest :: Manifest
  URL_pathname :: "string \<Rightarrow> string option"

datatype Thrown = TypeError | HandlerThrew nat

datatype Args =
  SetupArgs AgentInfo Port
  | MessageArgs string AgentInfo
  | DisconnectArgs AgentInfo

datatype HandlerResult = Completes | Throws

text \<open>A subscribed \<open>Function\<close>: its identity and what a call of it does.\<close>

record Handler =
  fn_ref :: nat
  fn_run :: "Args \<Rightarrow> HandlerResult"

text \<open>
  What an operation does to the outside, in order: an \<open>emit\<close> call, a handler call,
  a listener put on a port.
\<close>

datatype Obs =
  Fired string Args
  | Invoked nat Args
  | Listening nat string

record AgentManager =
  agents :: "(AgentId \<times> Port list) list"
  agentsInfo :: "(AgentId \<times> AgentInfo) list"
  eventHandlers :: "(string \<times> Handler list) list"

record ConnectionSource =
  cs_context :: PorterContext
  cs_tabId :: "int option"
  cs_frameId :: "int option"
  cs_url :: "string option"
  cs_portName :: string

subsection \<open>JavaScript primitives\<close>

text \<open>\<open>Set.add\<close> and \<open>Set.delete\<close> on a set of ports, by object identity.\<close>

definition port_add :: "Port \<Rightarrow> Port list \<Rightarrow> Port list" where
  "port_add p ps = (if port_ref p \<in> set (map port_ref ps) then ps else ps @ [p])"

definition port_delete :: "Port \<Rightarrow> Port list \<Rightarrow> Port list" where
  "port_delete p ps = filter (\<lambda>q. port_ref q \<noteq> port_ref p) ps"

definition fn_add :: "Handler \<Rightarrow> Handler list \<Rightarrow> Handler list" where
  "fn_add h hs = (if fn_ref h \<in> set (map fn_ref hs) then hs else hs @ [h])"

text \<open>\<open>x || d\<close> on an optional number: \<open>undefined\<close> and \<open>0\<close> are falsy.\<close>

definition num_or :: "int option \<Rightarrow> int \<Rightarrow> int" where
  "num_or x d = (case x of None \<Rightarrow> d | Some n \<Rightarrow> if n = 0 then d else n)"

text \<open>\<open>x || d\<close> on an optional string: \<open>undefined\<close> and the empty string are falsy.\<close>

definition str_or :: "string option \<Rightarrow> string \<Rightarrow> string" where
  "str_or x d = (case x of None \<Rightarrow> d | Some s \<Rightarrow> if s = [] then d else s)"

fun startsWith :: "string \<Rightarrow> string \<Rightarrow> bool" where
  "startsWith s [] = True"
| "startsWith [] (c # cs) = False"
| "startsWith (d # ds) (c # cs) = (d = c \<and> startsWith ds cs)"

text \<open>\<open>s.includes(sub)\<close>.\<close>

fun str_includes :: "string \<Rightarrow> string \<Rightarrow> bool" where
  "str_includes [] sub = (sub = [])"
| "str_includes (c # cs) sub = (startsWith (c # cs) sub \<or> str_includes cs sub)"

text \<open>\<open>s.split('/').pop()\<close>: what follows the last slash.\<close>

definition split_pop :: "string \<Rightarrow> string" where
  "split_pop s = rev (takeWhile (\<lambda>c. c \<noteq> CHR ''/'') (rev s))"

subsection \<open>The event hub\<close>

definition new_AgentManager :: AgentManager where
  "new_AgentManager =
     \<lparr>agents = [], agentsInfo = [],
      eventHandlers = [(''agentSetup'', []), (''agentMessage'', []), (''agentDisconnect'', [])]\<rparr>"

definition on :: "string \<Rightarrow> Handler \<Rightarrow> AgentManager \<Rightarrow> AgentManager" where
  "on event handler m =
     (case map_of (eventHandlers m) event of
        None \<Rightarrow> m
      | Some handlers \<Rightarrow>
          m\<lparr>eventHandlers := AList.update event (fn_add handler handlers) (eventHandlers m)\<rparr>)"

text \<open>
  \<open>handlers.forEach((handler) => handler(...args))\<close>: nothing catches, so the first
  handler that throws ends the loop and the exception leaves \<open>forEach\<close>.
\<close>

fun forEach :: "Handler list \<Rightarrow> Args \<Rightarrow> (Thrown + unit) \<times> Obs list" where
  "forEach [] a = (Inr (), [])"
| "forEach (h # hs) a =
     (case fn_run h a of
        Throws \<Rightarrow> (Inl (HandlerThrew (fn_ref h)), [Invoked (fn_ref h) a])
      | Completes \<Rightarrow> (case forEach hs a of (r, t) \<Rightarrow> (r, Invoked (fn_ref h) a # t)))"

definition emit :: "string \<Rightarrow> Args \<Rightarrow> AgentManager \<Rightarrow> (Thrown + unit) \<times> Obs list" where
  "emit event a m =
     (case map_of (eventHandlers m) event of
        None \<Rightarrow> (Inr (), [Fired event a])
      | Some handlers \<Rightarrow> (case forEach handlers a of (r, t) \<Rightarrow> (r, Fired event a # t)))"

subsection \<open>Classification\<close>

definition pageMatcher :: "string option \<Rightarrow> string \<Rightarrow> string" where
  "pageMatcher page dflt =
     (let p = str_or page [] in if p \<noteq> [] then split_pop p else dflt)"

definition pageMatchers :: "Manifest \<Rightarrow> (PorterContext \<times> string) list" where
  "pageMatchers mf =
     [(Sidepanel, pageMatcher (side_panel_default_path mf) ''sidepanel.html''),
      (Options, pageMatcher (options_page mf) ''options.html''),
      (Popup, pageMatcher (action_default_popup mf) ''popup.html''),
      (Devtools, pageMatcher (devtools_page mf) ''devtools.html''),
      (Newtab, pageMatcher (overrides_newtab mf) ''newtab.html''),
      (Bookmarks, pageMatcher (overrides_bookmarks mf) ''bookmarks.html''),
      (History, pageMatcher (overrides_history mf) ''history.html'')]"

definition tab_id_of :: "Tab option \<Rightarrow> int option" where
  "tab_id_of t = (case t of None \<Rightarrow> None | Some tb \<Rightarrow> tab_id tb)"

definition identifyConnectionSource ::
  "Browser \<Rightarrow> Port \<Rightarrow> Thrown + ConnectionSource option" where
  "identifyConnectionSource browser port =
     (case sender port of
        None \<Rightarrow> Inr None
      | Some s \<Rightarrow>
          (let url = str_or (sender_url s) [] in
           if sender_tab s \<noteq> None \<and> url \<noteq> [] \<and> \<not> str_includes url ''extension://'' then
             Inr (Some \<lparr>cs_context = ContentScript, cs_tabId = tab_id_of (sender_tab s),
                        cs_frameId = Some (num_or (sender_frameId s) 0),
                        cs_url = sender_url s, cs_portName = port_name port\<rparr>)
           else if url \<noteq> [] \<and> str_includes url ''extension://'' then
             (case URL_pathname browser url of
                None \<Rightarrow> Inl TypeError
              | Some urlPath \<Rightarrow>
                  (case find (\<lambda>(pageType, matcher). split_pop urlPath = matcher)
                          (pageMatchers (getManifest browser)) of
                     Some (pageType, matcher) \<Rightarrow>
                       Inr (Some \<lparr>cs_context = pageType,
                                  cs_tabId = Some (num_or (tab_id_of (sender_tab s)) 0),
                                  cs_frameId = Some (num_or (sender_frameId s) 0),
                                  cs_url = sender_url s, cs_portName = port_name port\<rparr>)
                   | None \<Rightarrow>
                       Inr (Some \<lparr>cs_context = Unknown,
                                  cs_tabId = Some (num_or (tab_id_of (sender_tab s)) 0),
                                  cs_frameId = Some (num_or (sender_frameId s) 0),
                                  cs_url = sender_url s, cs_portName = port_name port\<rparr>)))
           else
             Inr (Some \<lparr>cs_context = Unknown, cs_tabId = Some 0, cs_frameId = None,
                        cs_url = sender_url s, cs_portName = port_name port\<rparr>)))"

text \<open>
  Lines 67 to 69 of \<open>addAgent\<close>: the location under which the port is filed,
  \<open>connectionSource.tabId || -1\<close> and \<open>connectionSource.frameId || 0\<close>.
\<close>

definition determinedLocation :: "ConnectionSource \<Rightarrow> BrowserLocation" where
  "determinedLocation cs =
     \<lparr>loc_context = cs_context cs, loc_tabId = num_or (cs_tabId cs) (- 1),
      loc_frameId = num_or (cs_frameId cs) 0\<rparr>"

subsection \<open>Read accessors\<close>

definition sameLocation :: "BrowserLocation \<Rightarrow> AgentId \<times> AgentInfo \<Rightarrow> bool" where
  "sameLocation loc e =
     (loc_context (location (snd e)) = loc_context loc \<and>
      loc_tabId (location (snd e)) = loc_tabId loc \<and>
      loc_frameId (location (snd e)) = loc_frameId loc)"

definition getAgentByLocation :: "BrowserLocation \<Rightarrow> AgentManager \<Rightarrow> Agent option" where
  "getAgentByLocation loc m =
     (case find (sameLocation loc) (agentsInfo m) of
        None \<Rightarrow> None
      | Some infoEntry \<Rightarrow>
          (case map_of (agents m) (fst infoEntry) of
             None \<Rightarrow> None
           | Some portSet \<Rightarrow>
               (case map_of (agentsInfo m) (fst infoEntry) of
                  None \<Rightarrow> None
                | Some i \<Rightarrow> if portSet = [] then None else Some \<lparr>ports = portSet, info = i\<rparr>)))"

text \<open>\<open>Array.from(this.agents.get(key) || [])\<close>.\<close>

definition portsOf :: "AgentManager \<Rightarrow> AgentId \<Rightarrow> Port list" where
  "portsOf m key = (case map_of (agents m) key of None \<Rightarrow> [] | Some ps \<Rightarrow> ps)"

definition toAgent :: "AgentManager \<Rightarrow> AgentId \<times> AgentInfo \<Rightarrow> Agent" where
  "toAgent m e = \<lparr>ports = portsOf m (fst e), info = snd e\<rparr>"

definition getAgentsByContext :: "PorterContext \<Rightarrow> AgentManager \<Rightarrow> Agent list" where
  "getAgentsByContext c m =
     map (toAgent m) (filter (\<lambda>e. loc_context (location (snd e)) = c) (agentsInfo m))"

definition getAllAgents :: "AgentManager \<Rightarrow> Agent list" where
  "getAllAgents m = map (toAgent m) (agentsInfo m)"

text \<open>
  \<open>location.tabId ? value.location.tabId === location.tabId : true\<close>: the test is the
  truthiness of the field, so an absent field and the number 0 both take the \<open>true\<close>
  branch.
\<close>

definition queryMatch :: "PartialLocation \<Rightarrow> AgentId \<times> AgentInfo \<Rightarrow> bool" where
  "queryMatch q e =
     (let hasContext = (case part_context q of
                          Some c \<Rightarrow> loc_context (location (snd e)) = c | None \<Rightarrow> True);
          hasTabId = (case part_tabId q of
                        Some t \<Rightarrow> if t \<noteq> 0 then loc_tabId (location (snd e)) = t else True
                      | None \<Rightarrow> True);
          hasFrameId = (case part_frameId q of
                          Some f \<Rightarrow> if f \<noteq> 0 then loc_frameId (location (snd e)) = f else True
                        | None \<Rightarrow> True)
      in hasContext \<and> hasTabId \<and> hasFrameId)"

definition queryAgents :: "PartialLocation \<Rightarrow> AgentManager \<Rightarrow> Agent list" where
  "queryAgents q m = map (toAgent m) (filter (queryMatch q) (agentsInfo m))"

definition getAgentById :: "AgentId \<Rightarrow> AgentManager \<Rightarrow> Agent option" where
  "getAgentById i m =
     (case map_of (agents m) i of
        None \<Rightarrow> None
      | Some ps \<Rightarrow>
          (case map_of (agentsInfo m) i of
             None \<Rightarrow> None
           | Some i' \<Rightarrow> Some \<lparr>ports = ps, info = i'\<rparr>))"

definition getPortsByAgentId :: "AgentId \<Rightarrow> AgentManager \<Rightarrow> Port list" where
  "getPortsByAgentId i m = (case map_of (agents m) i of None \<Rightarrow> [] | Some ps \<Rightarrow> ps)"

definition getAllAgentsInfo :: "AgentManager \<Rightarrow> AgentInfo list" where
  "getAllAgentsInfo m = map snd (agentsInfo m)"

definition hasPort :: "Port \<Rightarrow> AgentManager \<Rightarrow> bool" where
  "hasPort port m = list_ex (\<lambda>e. list_ex (\<lambda>p. port_name p = port_name port) (snd e)) (agents m)"

subsection \<open>Operations\<close>

text \<open>
  \<open>addAgent\<close>. \<open>existing || uuidv4()\<close> takes the found id when it is a non-empty
  string. The port set of the id gets the port, the record of the id is refreshed in
  place or created, the two listeners are put on the port, and \<open>agentSetup\<close> is
  emitted last: when a handler throws, the exception leaves \<open>addAgent\<close> with the maps
  already written. The filter \<open>tabAgentsInfo\<close> only feeds a log line.
\<close>

definition addAgent ::
  "Browser \<Rightarrow> Port \<Rightarrow> AgentId \<Rightarrow> int \<Rightarrow> AgentManager
     \<Rightarrow> (Thrown + AgentId option) \<times> AgentManager \<times> Obs list" where
  "addAgent browser port fresh now m =
     (case identifyConnectionSource browser port of
        Inl e \<Rightarrow> (Inl e, m, [])
      | Inr None \<Rightarrow> (Inr None, m, [])
      | Inr (Some connectionSource) \<Rightarrow>
          (let loc = determinedLocation connectionSource;
               existing = map_option (\<lambda>a. info_id (info a)) (getAgentByLocation loc m);
               agentId = str_or existing fresh;
               agents' = AList.update agentId (port_add port (portsOf m agentId)) (agents m);
               agentInfo = (case map_of (agentsInfo m) agentId of
                              Some existingAgentInfo \<Rightarrow> existingAgentInfo\<lparr>lastActiveAt := now\<rparr>
                            | None \<Rightarrow> \<lparr>info_id = agentId, location = loc,
                                       createdAt = now, lastActiveAt = now\<rparr>);
               m' = m\<lparr>agents := agents',
                      agentsInfo := AList.update agentId agentInfo (agentsInfo m)\<rparr>;
               listeners = [Listening (port_ref port) ''onMessage'',
                            Listening (port_ref port) ''onDisconnect'']
           in case emit ''agentSetup'' (SetupArgs agentInfo port) m' of
                (Inl e, t) \<Rightarrow> (Inl e, m', listeners @ t)
              | (Inr u, t) \<Rightarrow> (Inr (Some agentId), m', listeners @ t)))"

definition removeAgent ::
  "AgentId \<Rightarrow> AgentManager \<Rightarrow> (Thrown + unit) \<times> AgentManager \<times> Obs list" where
  "removeAgent agentId m =
     (if map_of (agents m) agentId \<noteq> None \<and> map_of (agentsInfo m) agentId \<noteq> None then
        (Inr (), m\<lparr>agents := AList.delete agentId (agents m),
                   agentsInfo := AList.delete agentId (agentsInfo m)\<rparr>, [])
      else (Inr (), m, []))"

text \<open>
  \<open>removePortFromAgent\<close>, which the \<open>onDisconnect\<close> listener of a port calls with the
  id the port was filed under.
\<close>

definition removePortFromAgent ::
  "AgentId \<Rightarrow> Port \<Rightarrow> AgentManager \<Rightarrow> (Thrown + unit) \<times> AgentManager \<times> Obs list" where
  "removePortFromAgent agentId port m =
     (case map_of (agents m) agentId of
        None \<Rightarrow> (Inr (), m, [])
      | Some ps \<Rightarrow>
          (let ps' = port_delete port ps in
           if length ps' > 0 then
             (Inr (), m\<lparr>agents := AList.update agentId ps' (agents m)\<rparr>, [])
           else
             (let m1 = m\<lparr>agents := AList.delete agentId (agents m)\<rparr> in
              case map_of (agentsInfo m) agentId of
                None \<Rightarrow> (Inr (), m1, [])
              | Some i \<Rightarrow>
                  (let m2 = m1\<lparr>agentsInfo := AList.delete agentId (agentsInfo m)\<rparr> in
                   case emit ''agentDisconnect'' (DisconnectArgs i) m2 of
                     (r, t) \<Rightarrow> (r, m2, t)))))"

subsection \<open>Runs of the manager\<close>

text \<open>
  What the host can make the manager do: a port connects, \<open>removeAgent\<close> is called,
  a port's \<open>onDisconnect\<close> listener fires, a handler is subscribed. An exception
  that leaves an operation goes to the host, which carries on with the state as the
  operation left it.
\<close>

datatype Op =
  AddAgent Port AgentId int
  | RemoveAgent AgentId
  | PortDisconnect AgentId Port
  | Subscribe string Handler

fun step :: "Browser \<Rightarrow> Op \<Rightarrow> AgentManager \<Rightarrow> AgentManager" where
  "step b (AddAgent p fresh now) m = fst (snd (addAgent b p fresh now m))"
| "step b (RemoveAgent a) m = fst (snd (removeAgent a m))"
| "step b (PortDisconnect a p) m = fst (snd (removePortFromAgent a p m))"
| "step b (Subscribe ev h) m = on ev h m"

definition run :: "Browser \<Rightarrow> Op list \<Rightarrow> AgentManager \<Rightarrow> AgentManager" where
  "run b ops m = fold (step b) ops m"

subsection \<open>Notions the properties are stated with\<close>

text \<open>The location a port is filed under, when the classifier returns one.\<close>

definition identityKey :: "Browser \<Rightarrow> Port \<Rightarrow> BrowserLocation option" where
  "identityKey b p =
     (case identifyConnectionSource b p of
        Inr (Some cs) \<Rightarrow> Some (determinedLocation cs)
      | _ \<Rightarrow> None)"

definition handlersOf :: "string \<Rightarrow> AgentManager \<Rightarrow> Handler list" where
  "handlersOf ev m = (case map_of (eventHandlers m) ev of None \<Rightarrow> [] | Some hs \<Rightarrow> hs)"

text \<open>The handlers subscribed to an event return normally, whatever they are given.\<close>

definition quiet :: "string \<Rightarrow> AgentManager \<Rightarrow> bool" where
  "quiet ev m = (\<forall>h \<in> set (handlersOf ev m). \<forall>a. fn_run h a = Completes)"

text \<open>The \<open>emit\<close> calls of a trace.\<close>

fun isFired :: "Obs \<Rightarrow> bool" where
  "isFired (Fired ev a) = True"
| "isFired (Invoked r a) = False"
| "isFired (Listening r l) = False"

definition fired :: "Obs list \<Rightarrow> Obs list" where
  "fired t = filter isFired t"

text \<open>
  The state invariant: both maps have the same keys, each once; a record carries the id
  it is filed under; a port set is not empty and holds each port object once.
\<close>

definition wf :: "AgentManager \<Rightarrow> bool" where
  "wf m =
     (distinct (map fst (agents m)) \<and> distinct (map fst (agentsInfo m)) \<and>
      set (map fst (agents m)) = set (map fst (agentsInfo m)) \<and>
      (\<forall>e \<in> set (agentsInfo m). info_id (snd e) = fst e) \<and>
      (\<forall>e \<in> set (agents m). snd e \<noteq> [] \<and> distinct (map port_ref (snd e))))"

text \<open>
  The invariant of the subscriptions: the three event names the constructor sets, in its
  order, and each handler set holds a function object once.
\<close>

definition hwf :: "AgentManager \<Rightarrow> bool" where
  "hwf m =
     (map fst (eventHandlers m) = [''agentSetup'', ''agentMessage'', ''agentDisconnect''] \<and>
      (\<forall>e \<in> set (eventHandlers m). distinct (map fn_ref (snd e))))"

text \<open>
  The \<open>URL\<close> constructor accepts the url of the port's sender where
  \<open>identifyConnectionSource\<close> hands it one: only a non-empty url that contains
  \<open>extension://\<close> is parsed (line 383).
\<close>

definition urlParses :: "Browser \<Rightarrow> Port \<Rightarrow> bool" where
  "urlParses b p =
     (case sender p of
        None \<Rightarrow> True
      | Some s \<Rightarrow>
          (let url = str_or (sender_url s) [] in
           if url \<noteq> [] \<and> str_includes url ''extension://''
           then URL_pathname b url \<noteq> None else True))"

text \<open>
  A sequence of \<open>addAgent\<close> calls, each with its port, the id \<open>uuidv4()\<close> would give
  it and its clock reading: what each call does, and the state after the last.
\<close>

fun addAgents ::
  "Browser \<Rightarrow> (Port \<times> AgentId \<times> int) list \<Rightarrow> AgentManager
     \<Rightarrow> (Thrown + AgentId option) list \<times> AgentManager" where
  "addAgents b [] m = ([], m)"
| "addAgents b (c # cs) m =
     (case addAgent b (fst c) (fst (snd c)) (snd (snd c)) m of
        (r, m', t) \<Rightarrow> (case addAgents b cs m' of (rs, m'') \<Rightarrow> (r # rs, m'')))"

text \<open>The ids that the calls of a sequence returned.\<close>

fun returnedIds :: "(Thrown + AgentId option) list \<Rightarrow> AgentId list" where
  "returnedIds [] = []"
| "returnedIds (Inr (Some a) # rs) = a # returnedIds rs"
| "returnedIds (r # rs) = returnedIds rs"

text \<open>What \<open>addAgent\<close> computes on the way: the id, the record, the state.\<close>

definition resolvedId :: "BrowserLocation \<Rightarrow> AgentId \<Rightarrow> AgentManager \<Rightarrow> AgentId" where
  "resolvedId loc fresh m =
     str_or (map_option (\<lambda>a. info_id (info a)) (getAgentByLocation loc m)) fresh"

definition recordFor :: "AgentId \<Rightarrow> BrowserLocation \<Rightarrow> int \<Rightarrow> AgentManager \<Rightarrow> AgentInfo" where
  "recordFor k loc now m =
     (case map_of (agentsInfo m) k of
        Some existingAgentInfo \<Rightarrow> existingAgentInfo\<lparr>lastActiveAt := now\<rparr>
      | None \<Rightarrow> \<lparr>info_id = k, location = loc, createdAt = now, lastActiveAt = now\<rparr>)"

definition filed :: "AgentId \<Rightarrow> Port \<Rightarrow> AgentInfo \<Rightarrow> AgentManager \<Rightarrow> AgentManager" where
  "filed k p i m =
     m\<lparr>agents := AList.update k (port_add p (portsOf m k)) (agents m),
       agentsInfo := AList.update k i (agentsInfo m)\<rparr>"

subsection \<open>Example data\<close>

text \<open>
  The mock port of the unit tests (a page at \<open>http://example.com\<close> in a tab), a host
  with an empty manifest, and two handlers.
\<close>

definition webPort :: "nat \<Rightarrow> int \<Rightarrow> int \<Rightarrow> Port" where
  "webPort r t f =
     \<lparr>port_ref = r, port_name = ''porter'',
      sender = Some \<lparr>sender_tab = Some \<lparr>tab_id = Some t\<rparr>,
                     sender_url = Some ''http://example.com'', sender_frameId = Some f\<rparr>\<rparr>"

definition ex_manifest :: Manifest where
  "ex_manifest =
     \<lparr>side_panel_default_path = None, options_page = None, action_default_popup = None,
      devtools_page = None, overrides_newtab = None, overrides_bookmarks = None,
      overrides_history = None\<rparr>"

definition ex_browser :: Browser where
  "ex_browser = \<lparr>getManifest = ex_manifest, URL_pathname = (\<lambda>u. Some (CHR ''/'' # split_pop u))\<rparr>"

definition ex_thrower :: Handler where
  "ex_thrower = \<lparr>fn_ref = 1, fn_run = (\<lambda>a. Throws)\<rparr>"

definition ex_listener :: Handler where
  "ex_listener = \<lparr>fn_ref = 2, fn_run = (\<lambda>a. Completes)\<rparr>"

definition ex_info :: AgentInfo where
  "ex_info =
     \<lparr>info_id = ''a1'',
      location = \<lparr>loc_context = ContentScript, loc_tabId = 5, loc_frameId = 0\<rparr>,
      createdAt = 10, lastActiveAt = 10\<rparr>"

definition ex_registry :: AgentManager where
  "ex_registry =
     run ex_browser
       [Subscribe ''agentSetup'' ex_listener, Subscribe ''agentDisconnect'' ex_listener,
        AddAgent (webPort 1 5 0) ''a1'' 10, AddAgent (webPort 2 5 0) ''a2'' 11,
        AddAgent (webPort 3 6 0) ''a3'' 12] new_AgentManager"

definition ex_key :: BrowserLocation where
  "ex_key = \<lparr>loc_context = ContentScript, loc_tabId = 5, loc_frameId = 0\<rparr>"

definition ex_hub :: AgentManager where
  "ex_hub = on ''agentSetup'' ex_listener new_AgentManager"

definition ex_noSender :: Port where
  "ex_noSender = \<lparr>port_ref = 9, port_name = ''porter'', sender = None\<rparr>"

definition ex_calls :: "(Port \<times> AgentId \<times> int) list" where
  "ex_calls = [(webPort 1 5 0, ''a1'', 10), (webPort 2 5 1, ''a2'', 11), (webPort 3 6 0, ''a3'', 12)]"

text \<open>A port whose sender carries neither a tab nor a url.\<close>

definition ex_noUrl :: Port where
  "ex_noUrl =
     \<lparr>port_ref = 8, port_name = ''porter'',
      sender = Some \<lparr>sender_tab = None, sender_url = None, sender_frameId = None\<rparr>\<rparr>"

text \<open>
  An extension page that connects without a tab, a host whose \<open>URL\<close> constructor
  rejects what it is given, and a manager whose only \<open>agentSetup\<close> handler throws.
\<close>

definition ex_extPort :: Port where
  "ex_extPort =
     \<lparr>port_ref = 7, port_name = ''porter'',
      sender = Some \<lparr>sender_tab = None, sender_url = Some ''chrome-extension://abc/popup.html'',
                     sender_frameId = None\<rparr>\<rparr>"

definition ex_rejecting :: Browser where
  "ex_rejecting = \<lparr>getManifest = ex_manifest, URL_pathname = (\<lambda>u. None)\<rparr>"

definition ex_throwing_hub :: AgentManager where
  "ex_throwing_hub = on ''agentSetup'' ex_thrower new_AgentManager"

section \<open>Properties\<close>

subsection \<open>Association lists and port sets\<close>

lemma map_of_keys: "map_of al k \<noteq> None \<longleftrightarrow> k \<in> set (map fst al)"
  by (induction al) auto

lemma map_of_mem: "distinct (map fst al) \<Longrightarrow> (k, v) \<in> set al \<longleftrightarrow> map_of al k = Some v"
  by (induction al) (auto intro: rev_image_eqI)

lemma set_update_distinct:
  "distinct (map fst al) \<Longrightarrow> set (AList.update k v al) = {e \<in> set al. fst e \<noteq> k} \<union> {(k, v)}"
  by (induction al) (auto intro: rev_image_eqI)

lemma set_delete: "set (AList.delete k al) = {e \<in> set al. fst e \<noteq> k}"
  by (auto simp: AList.delete_eq)

lemma keys_delete: "set (map fst (AList.delete k al)) = set (map fst al) - {k}"
  by (auto simp: AList.delete_eq)

lemma keys_update: "set (map fst (AList.update k v al)) = insert k (set (map fst al))"
  using AList.dom_update [of k v al] by simp

lemma port_add_nonempty: "port_add p ps \<noteq> []"
  by (auto simp: port_add_def)

lemma port_add_distinct: "distinct (map port_ref ps) \<Longrightarrow> distinct (map port_ref (port_add p ps))"
  by (simp add: port_add_def)

lemma port_delete_distinct:
  "distinct (map port_ref ps) \<Longrightarrow> distinct (map port_ref (port_delete p ps))"
  by (simp add: port_delete_def distinct_map_filter)

subsection \<open>The event hub\<close>

lemma forEach_find:
  "forEach hs a =
     (case find (\<lambda>h. fn_run h a = Throws) hs of
        None \<Rightarrow> (Inr (), map (\<lambda>h. Invoked (fn_ref h) a) hs)
      | Some h \<Rightarrow>
          (Inl (HandlerThrew (fn_ref h)),
           map (\<lambda>h. Invoked (fn_ref h) a) (takeWhile (\<lambda>h. fn_run h a \<noteq> Throws) hs @ [h])))"
  by (induction hs) (auto split: HandlerResult.splits option.splits)

lemma forEach_quiet:
  "\<forall>h \<in> set hs. fn_run h a = Completes \<Longrightarrow>
   forEach hs a = (Inr (), map (\<lambda>h. Invoked (fn_ref h) a) hs)"
  by (induction hs) auto

text \<open>
  C8, as the code has it. A single \<open>emit\<close> calls the handlers of the event one after
  the other in subscription order. When none throws, every one of them is called and
  \<open>emit\<close> returns. When one throws, it is the last one called: the handlers subscribed
  after it are not called in that \<open>emit\<close>, and the exception leaves \<open>emit\<close> for the
  caller.
\<close>

theorem emit_in_subscription_order:
  "map_of (eventHandlers m) ev = Some hs \<Longrightarrow>
   emit ev a m =
     (case find (\<lambda>h. fn_run h a = Throws) hs of
        None \<Rightarrow> (Inr (), Fired ev a # map (\<lambda>h. Invoked (fn_ref h) a) hs)
      | Some h \<Rightarrow>
          (Inl (HandlerThrew (fn_ref h)),
           Fired ev a #
           map (\<lambda>h. Invoked (fn_ref h) a) (takeWhile (\<lambda>h. fn_run h a \<noteq> Throws) hs @ [h])))"
  by (simp add: emit_def forEach_find split: option.splits)

theorem emit_in_subscription_order_witness:
  "map_of (eventHandlers (on ''agentSetup'' ex_thrower (on ''agentSetup'' ex_listener new_AgentManager)))
     ''agentSetup'' = Some [ex_listener, ex_thrower] \<and>
   emit ''agentSetup'' (SetupArgs ex_info (webPort 1 5 0))
     (on ''agentSetup'' ex_thrower (on ''agentSetup'' ex_listener new_AgentManager)) =
   (Inl (HandlerThrew 1),
    [Fired ''agentSetup'' (SetupArgs ex_info (webPort 1 5 0)),
     Invoked 2 (SetupArgs ex_info (webPort 1 5 0)),
     Invoked 1 (SetupArgs ex_info (webPort 1 5 0))])"
proof -
  have h: "map_of (eventHandlers (on ''agentSetup'' ex_thrower
             (on ''agentSetup'' ex_listener new_AgentManager))) ''agentSetup'' =
           Some [ex_listener, ex_thrower]"
    by (simp add: on_def new_AgentManager_def fn_add_def ex_thrower_def ex_listener_def)
  show ?thesis
    using h emit_in_subscription_order [OF h, of "SetupArgs ex_info (webPort 1 5 0)"]
    by (simp add: ex_thrower_def ex_listener_def)
qed

text \<open>
  C8, as the claim has it, fails: with a handler that throws subscribed before one that
  does not, \<open>emit\<close> calls the first only and the exception leaves \<open>emit\<close>.
\<close>

theorem emit_isolation_counterexample:
  "emit ''agentDisconnect'' (DisconnectArgs ex_info)
     (on ''agentDisconnect'' ex_listener (on ''agentDisconnect'' ex_thrower new_AgentManager)) =
   (Inl (HandlerThrew 1),
    [Fired ''agentDisconnect'' (DisconnectArgs ex_info), Invoked 1 (DisconnectArgs ex_info)])"
  by (simp add: emit_def on_def new_AgentManager_def fn_add_def ex_thrower_def ex_listener_def)

subsection \<open>The invariant\<close>

lemma portsOf_distinct:
  "wf m \<Longrightarrow> distinct (map port_ref (portsOf m k))"
proof (cases "map_of (agents m) k")
  case None
  then show ?thesis by (simp add: portsOf_def)
next
  case (Some ps)
  then have "(k, ps) \<in> set (agents m)" by (rule map_of_SomeD)
  moreover assume "wf m"
  ultimately show ?thesis using Some by (auto simp: wf_def portsOf_def)
qed

lemma wf_filed:
  assumes "wf m" "ps \<noteq> []" "distinct (map port_ref ps)" "info_id i = k"
  shows "wf (m\<lparr>agents := AList.update k ps (agents m),
               agentsInfo := AList.update k i (agentsInfo m)\<rparr>)"
proof -
  have d: "distinct (map fst (agents m))" "distinct (map fst (agentsInfo m))"
    using assms(1) by (simp_all add: wf_def)
  have k: "set (map fst (agents m)) = set (map fst (agentsInfo m))"
    using assms(1) by (simp add: wf_def)
  have a: "\<forall>e \<in> set (agentsInfo m). info_id (snd e) = fst e"
    using assms(1) by (simp add: wf_def)
  have b: "\<forall>e \<in> set (agents m). snd e \<noteq> [] \<and> distinct (map port_ref (snd e))"
    using assms(1) by (simp add: wf_def)
  have 1: "set (map fst (AList.update k ps (agents m))) =
           set (map fst (AList.update k i (agentsInfo m)))"
    unfolding keys_update using k by simp
  have 2: "\<forall>e \<in> set (AList.update k i (agentsInfo m)). info_id (snd e) = fst e"
    unfolding set_update_distinct [OF d(2)] using a assms(4) by auto
  have 3: "\<forall>e \<in> set (AList.update k ps (agents m)).
             snd e \<noteq> [] \<and> distinct (map port_ref (snd e))"
    unfolding set_update_distinct [OF d(1)] using b assms(2,3) by auto
  show ?thesis
    unfolding wf_def using 1 2 3 d by (simp add: AList.distinct_update del: set_map)
qed

lemma wf_deleted:
  assumes "wf m"
  shows "wf (m\<lparr>agents := AList.delete k (agents m),
               agentsInfo := AList.delete k (agentsInfo m)\<rparr>)"
proof -
  have d: "distinct (map fst (agents m))" "distinct (map fst (agentsInfo m))"
    using assms(1) by (simp_all add: wf_def)
  have k: "set (map fst (agents m)) = set (map fst (agentsInfo m))"
    using assms(1) by (simp add: wf_def)
  have a: "\<forall>e \<in> set (agentsInfo m). info_id (snd e) = fst e"
    using assms(1) by (simp add: wf_def)
  have b: "\<forall>e \<in> set (agents m). snd e \<noteq> [] \<and> distinct (map port_ref (snd e))"
    using assms(1) by (simp add: wf_def)
  have 1: "set (map fst (AList.delete k (agents m))) =
           set (map fst (AList.delete k (agentsInfo m)))"
    unfolding keys_delete using k by simp
  have 2: "\<forall>e \<in> set (AList.delete k (agentsInfo m)). info_id (snd e) = fst e"
    unfolding set_delete using a by auto
  have 3: "\<forall>e \<in> set (AList.delete k (agents m)).
             snd e \<noteq> [] \<and> distinct (map port_ref (snd e))"
    unfolding set_delete using b by auto
  show ?thesis
    unfolding wf_def using 1 2 3 d by (simp add: AList.distinct_delete del: set_map)
qed

lemma wf_on: "wf m \<Longrightarrow> wf (on ev h m)"
  by (auto simp: wf_def on_def split: option.splits)

lemma wf_new: "wf new_AgentManager"
  by (simp add: wf_def new_AgentManager_def)

lemma identityKey_Some:
  "identityKey b p = Some loc \<Longrightarrow>
   \<exists>cs. identifyConnectionSource b p = Inr (Some cs) \<and> determinedLocation cs = loc"
  by (auto simp: identityKey_def split: sum.splits option.splits)

lemma addAgent_filed:
  assumes "identityKey b p = Some loc"
  shows "addAgent b p fresh now m =
     (let k = resolvedId loc fresh m; i = recordFor k loc now m; m' = filed k p i m;
          et = emit ''agentSetup'' (SetupArgs i p) m'
      in (case fst et of Inl e \<Rightarrow> Inl e | Inr u \<Rightarrow> Inr (Some k), m',
          [Listening (port_ref p) ''onMessage'', Listening (port_ref p) ''onDisconnect''] @ snd et))"
proof -
  obtain cs where cs: "identifyConnectionSource b p = Inr (Some cs)" "determinedLocation cs = loc"
    using identityKey_Some [OF assms] by blast
  show ?thesis
    unfolding addAgent_def cs(1)
    by (simp add: Let_def cs(2) resolvedId_def recordFor_def filed_def
        split: prod.splits sum.splits)
qed

lemma addAgent_state:
  "identityKey b p = Some loc \<Longrightarrow>
   fst (snd (addAgent b p fresh now m)) =
     filed (resolvedId loc fresh m) p (recordFor (resolvedId loc fresh m) loc now m) m"
  by (simp add: addAgent_filed Let_def)

lemma addAgent_unclassified:
  "identityKey b p = None \<Longrightarrow> fst (snd (addAgent b p fresh now m)) = m"
  by (auto simp: identityKey_def addAgent_def split: sum.splits option.splits)

lemma recordFor_id: "wf m \<Longrightarrow> info_id (recordFor k loc now m) = k"
proof (cases "map_of (agentsInfo m) k")
  case None
  then show ?thesis by (simp add: recordFor_def)
next
  case (Some i)
  then have "(k, i) \<in> set (agentsInfo m)" by (rule map_of_SomeD)
  moreover assume "wf m"
  ultimately have "info_id i = k" by (auto simp: wf_def)
  then show ?thesis using Some by (simp add: recordFor_def)
qed

lemma wf_filed_record: "wf m \<Longrightarrow> wf (filed k p (recordFor k loc now m) m)"
  unfolding filed_def
  by (rule wf_filed) (simp_all add: port_add_nonempty port_add_distinct portsOf_distinct recordFor_id)

lemma wf_addAgent: "wf m \<Longrightarrow> wf (fst (snd (addAgent b p fresh now m)))"
  by (cases "identityKey b p") (simp_all add: addAgent_unclassified addAgent_state wf_filed_record)

lemma wf_removeAgent: "wf m \<Longrightarrow> wf (fst (snd (removeAgent a m)))"
  by (simp add: removeAgent_def wf_deleted)

lemma update_same_keys_wf:
  assumes "wf m" "map_of (agents m) k = Some ps" "ps' \<noteq> []" "distinct (map port_ref ps')"
  shows "wf (m\<lparr>agents := AList.update k ps' (agents m)\<rparr>)"
proof -
  have d: "distinct (map fst (agents m))" using assms(1) by (simp add: wf_def)
  have kin: "k \<in> set (map fst (agents m))" using assms(2) map_of_keys [of "agents m" k] by simp
  have b: "\<forall>e \<in> set (agents m). snd e \<noteq> [] \<and> distinct (map port_ref (snd e))"
    using assms(1) by (simp add: wf_def)
  have 1: "set (map fst (AList.update k ps' (agents m))) = set (map fst (agents m))"
    unfolding keys_update using kin by auto
  have 3: "\<forall>e \<in> set (AList.update k ps' (agents m)).
             snd e \<noteq> [] \<and> distinct (map port_ref (snd e))"
    unfolding set_update_distinct [OF d] using b assms(3,4) by auto
  show ?thesis
    using assms(1) 3 unfolding wf_def
    by (simp add: AList.distinct_update 1 del: set_map)
qed

lemma removePort_state:
  "fst (snd (removePortFromAgent a p m)) =
     (case map_of (agents m) a of
        None \<Rightarrow> m
      | Some ps \<Rightarrow>
          if port_delete p ps \<noteq> [] then m\<lparr>agents := AList.update a (port_delete p ps) (agents m)\<rparr>
          else (case map_of (agentsInfo m) a of
                  None \<Rightarrow> m\<lparr>agents := AList.delete a (agents m)\<rparr>
                | Some i \<Rightarrow> m\<lparr>agents := AList.delete a (agents m),
                               agentsInfo := AList.delete a (agentsInfo m)\<rparr>))"
  by (simp add: removePortFromAgent_def Let_def split: option.splits prod.splits)

lemma wf_removePort:
  assumes "wf m"
  shows "wf (fst (snd (removePortFromAgent a p m)))"
proof (cases "map_of (agents m) a")
  case None
  then show ?thesis using assms by (simp add: removePort_state)
next
  case (Some ps)
  have "(a, ps) \<in> set (agents m)" using Some by (rule map_of_SomeD)
  then have dps: "distinct (map port_ref ps)" using assms by (auto simp: wf_def)
  have "a \<in> set (map fst (agentsInfo m))"
    using Some map_of_keys [of "agents m" a] assms by (simp add: wf_def del: set_map)
  then obtain i where i: "map_of (agentsInfo m) a = Some i"
    using map_of_keys [of "agentsInfo m" a] by auto
  show ?thesis
  proof (cases "port_delete p ps = []")
    case True
    then show ?thesis using Some i assms by (simp add: removePort_state wf_deleted)
  next
    case False
    then show ?thesis
      using Some update_same_keys_wf [OF assms Some False port_delete_distinct [OF dps]]
      by (simp add: removePort_state)
  qed
qed

lemma wf_step: "wf m \<Longrightarrow> wf (step b op m)"
  by (cases op) (simp_all add: wf_addAgent wf_removeAgent wf_removePort wf_on)

lemma wf_run: "wf m \<Longrightarrow> wf (run b ops m)"
  unfolding run_def by (induction ops arbitrary: m) (simp_all add: wf_step)

text \<open>
  C4. From the empty registry, after any sequence of \<open>addAgent\<close>, \<open>removeAgent\<close>,
  port disconnects and subscriptions, whatever the host, the ports, the ids drawn and the
  clock, the two maps have the same set of keys.
\<close>

theorem index_consistency:
  "set (map fst (agents (run b ops new_AgentManager))) =
   set (map fst (agentsInfo (run b ops new_AgentManager)))"
  using wf_run [OF wf_new, of b ops] by (simp add: wf_def del: set_map)

theorem index_consistency_witness:
  "set (map fst (agents (run ex_browser
      [AddAgent (webPort 1 5 0) ''a1'' 10, AddAgent (webPort 2 6 0) ''a2'' 11,
       AddAgent (webPort 3 5 0) ''a3'' 12, PortDisconnect ''a2'' (webPort 2 6 0),
       RemoveAgent ''a1'', AddAgent (webPort 4 7 0) ''a4'' 13] new_AgentManager))) =
   set (map fst (agentsInfo (run ex_browser
      [AddAgent (webPort 1 5 0) ''a1'' 10, AddAgent (webPort 2 6 0) ''a2'' 11,
       AddAgent (webPort 3 5 0) ''a3'' 12, PortDisconnect ''a2'' (webPort 2 6 0),
       RemoveAgent ''a1'', AddAgent (webPort 4 7 0) ''a4'' 13] new_AgentManager))) \<and>
   map fst (agents (run ex_browser
      [AddAgent (webPort 1 5 0) ''a1'' 10, AddAgent (webPort 2 6 0) ''a2'' 11,
       AddAgent (webPort 3 5 0) ''a3'' 12, PortDisconnect ''a2'' (webPort 2 6 0),
       RemoveAgent ''a1'', AddAgent (webPort 4 7 0) ''a4'' 13] new_AgentManager)) = [''a4'']"
proof (rule conjI)
  show "set (map fst (agents (run ex_browser
      [AddAgent (webPort 1 5 0) ''a1'' 10, AddAgent (webPort 2 6 0) ''a2'' 11,
       AddAgent (webPort 3 5 0) ''a3'' 12, PortDisconnect ''a2'' (webPort 2 6 0),
       RemoveAgent ''a1'', AddAgent (webPort 4 7 0) ''a4'' 13] new_AgentManager))) =
   set (map fst (agentsInfo (run ex_browser
      [AddAgent (webPort 1 5 0) ''a1'' 10, AddAgent (webPort 2 6 0) ''a2'' 11,
       AddAgent (webPort 3 5 0) ''a3'' 12, PortDisconnect ''a2'' (webPort 2 6 0),
       RemoveAgent ''a1'', AddAgent (webPort 4 7 0) ''a4'' 13] new_AgentManager)))"
    by (rule index_consistency)
  show "map fst (agents (run ex_browser
      [AddAgent (webPort 1 5 0) ''a1'' 10, AddAgent (webPort 2 6 0) ''a2'' 11,
       AddAgent (webPort 3 5 0) ''a3'' 12, PortDisconnect ''a2'' (webPort 2 6 0),
       RemoveAgent ''a1'', AddAgent (webPort 4 7 0) ''a4'' 13] new_AgentManager)) = [''a4'']"
    by code_simp
qed

subsection \<open>Forced removal\<close>

text \<open>
  C5. For a known id, whatever its port set, \<open>removeAgent\<close> takes the entry of the id
  out of both maps and leaves every other entry of both maps, in its place, and the
  subscriptions as they were; it returns, fires no event and calls nothing on any port
  (its trace is empty). The id is then unknown to \<open>getAgentById\<close>, and every other id
  reads as before.
\<close>

theorem removeAgent_forced:
  "map_of (agents m) a = Some ps \<Longrightarrow> map_of (agentsInfo m) a = Some i \<Longrightarrow>
   removeAgent a m =
     (Inr (), m\<lparr>agents := filter (\<lambda>e. fst e \<noteq> a) (agents m),
                agentsInfo := filter (\<lambda>e. fst e \<noteq> a) (agentsInfo m)\<rparr>, []) \<and>
   getAgentById a (fst (snd (removeAgent a m))) = None \<and>
   getPortsByAgentId a (fst (snd (removeAgent a m))) = [] \<and>
   (\<forall>a'. a' \<noteq> a \<longrightarrow>
      getAgentById a' (fst (snd (removeAgent a m))) = getAgentById a' m \<and>
      getPortsByAgentId a' (fst (snd (removeAgent a m))) = getPortsByAgentId a' m)"
proof -
  assume k: "map_of (agents m) a = Some ps" "map_of (agentsInfo m) a = Some i"
  have d: "\<And>al :: (AgentId \<times> 'x) list. AList.delete a al = filter (\<lambda>e. fst e \<noteq> a) al"
    by (simp add: AList.delete_eq case_prod_unfold eq_commute)
  have 1: "removeAgent a m =
     (Inr (), m\<lparr>agents := filter (\<lambda>e. fst e \<noteq> a) (agents m),
                agentsInfo := filter (\<lambda>e. fst e \<noteq> a) (agentsInfo m)\<rparr>, [])"
    using k by (simp add: removeAgent_def d)
  have 2: "map_of (filter (\<lambda>e. fst e \<noteq> a) al) a' = (if a' = a then None else map_of al a')"
    for al :: "(AgentId \<times> 'x) list" and a'
    using AList.delete_conv' [of a al] by (simp add: d)
  show ?thesis
    unfolding 1 by (simp add: getAgentById_def getPortsByAgentId_def 2 cong: option.case_cong)
qed

subsection \<open>Reference counting\<close>

lemma fired_forEach: "fired (snd (forEach hs a)) = []"
  by (induction hs) (auto simp: fired_def split: HandlerResult.splits prod.splits)

lemma fired_emit: "fired (snd (emit ev a m)) = [Fired ev a]"
proof (cases "map_of (eventHandlers m) ev")
  case None
  then show ?thesis by (simp add: emit_def fired_def)
next
  case (Some hs)
  then show ?thesis
    using fired_forEach [of hs a] by (cases "forEach hs a") (simp add: emit_def fired_def)
qed

lemma length_port_delete:
  "distinct (map port_ref ps) \<Longrightarrow> port_ref p \<in> set (map port_ref ps) \<Longrightarrow>
   length (port_delete p ps) = length ps - 1"
proof (induction ps)
  case Nil
  then show ?case by simp
next
  case (Cons q qs)
  show ?case
  proof (cases "port_ref q = port_ref p")
    case True
    then have "port_ref p \<notin> set (map port_ref qs)" using Cons.prems(1) by auto
    then have "\<forall>x \<in> set qs. port_ref x \<noteq> port_ref p" by (metis imageI set_map)
    then have "port_delete p qs = qs" by (simp add: port_delete_def)
    then show ?thesis using True by (simp add: port_delete_def)
  next
    case False
    then have "length (port_delete p qs) = length qs - 1" using Cons by auto
    moreover have "qs \<noteq> []" using Cons.prems(2) False by auto
    ultimately show ?thesis using False by (simp add: port_delete_def)
  qed
qed

lemma map_of_filter_key:
  "map_of (filter (\<lambda>e. fst e \<noteq> a) al) a' = (if a' = a then None else map_of al a')"
  by (induction al) auto

lemma delete_filter: "AList.delete a al = filter (\<lambda>e. fst e \<noteq> a) al"
  by (simp add: AList.delete_eq case_prod_unfold eq_commute)

lemma accessors_without:
  assumes "\<forall>e \<in> set (agentsInfo m). info_id (snd e) \<noteq> a"
  shows "(\<forall>g \<in> set (getAllAgents m). info_id (info g) \<noteq> a) \<and>
         (\<forall>j \<in> set (getAllAgentsInfo m). info_id j \<noteq> a) \<and>
         (\<forall>c. \<forall>g \<in> set (getAgentsByContext c m). info_id (info g) \<noteq> a) \<and>
         (\<forall>q. \<forall>g \<in> set (queryAgents q m). info_id (info g) \<noteq> a) \<and>
         (\<forall>loc. \<forall>g. getAgentByLocation loc m = Some g \<longrightarrow> info_id (info g) \<noteq> a)"
proof -
  have 1: "\<forall>g \<in> set (getAllAgents m). info_id (info g) \<noteq> a"
    using assms by (auto simp: getAllAgents_def toAgent_def)
  have 2: "\<forall>j \<in> set (getAllAgentsInfo m). info_id j \<noteq> a"
    using assms by (auto simp: getAllAgentsInfo_def)
  have 3: "\<forall>c. \<forall>g \<in> set (getAgentsByContext c m). info_id (info g) \<noteq> a"
    using assms by (auto simp: getAgentsByContext_def toAgent_def)
  have 4: "\<forall>q. \<forall>g \<in> set (queryAgents q m). info_id (info g) \<noteq> a"
    using assms by (auto simp: queryAgents_def toAgent_def)
  have 5: "info_id (info g) \<noteq> a" if g: "getAgentByLocation loc m = Some g" for loc g
  proof -
    from g obtain k where "map_of (agentsInfo m) k = Some (info g)"
      by (auto simp: getAgentByLocation_def split: option.splits if_splits)
    then have "(k, info g) \<in> set (agentsInfo m)" by (rule map_of_SomeD)
    then show ?thesis using assms by auto
  qed
  show ?thesis using 1 2 3 4 5 by blast
qed

text \<open>
  C3. In a state that satisfies the invariant, let an entity have the port set \<open>ps\<close>
  and let \<open>p\<close> be one of its ports. With more than one port, the port's disconnect
  leaves the entity with its record and one port less, and nothing is fired. With one
  port, \<open>agentDisconnect\<close> is fired once, with the record as it was in the map, and no
  read accessor shows the id any more.
\<close>

theorem removePort_reference_counting:
  assumes "wf m" and "map_of (agents m) a = Some ps" and "map_of (agentsInfo m) a = Some i"
    and "port_ref p \<in> set (map port_ref ps)"
  shows "(1 < length ps \<longrightarrow>
            removePortFromAgent a p m =
              (Inr (), m\<lparr>agents := AList.update a (port_delete p ps) (agents m)\<rparr>, []) \<and>
            length (port_delete p ps) = length ps - 1 \<and>
            getAgentById a (fst (snd (removePortFromAgent a p m))) =
              Some \<lparr>ports = port_delete p ps, info = i\<rparr>) \<and>
         (length ps = 1 \<longrightarrow>
            fired (snd (snd (removePortFromAgent a p m))) =
              [Fired ''agentDisconnect'' (DisconnectArgs i)] \<and>
            getAgentById a (fst (snd (removePortFromAgent a p m))) = None \<and>
            getPortsByAgentId a (fst (snd (removePortFromAgent a p m))) = [] \<and>
            (\<forall>g \<in> set (getAllAgents (fst (snd (removePortFromAgent a p m)))).
               info_id (info g) \<noteq> a) \<and>
            (\<forall>j \<in> set (getAllAgentsInfo (fst (snd (removePortFromAgent a p m)))).
               info_id j \<noteq> a) \<and>
            (\<forall>c. \<forall>g \<in> set (getAgentsByContext c (fst (snd (removePortFromAgent a p m)))).
               info_id (info g) \<noteq> a) \<and>
            (\<forall>q. \<forall>g \<in> set (queryAgents q (fst (snd (removePortFromAgent a p m)))).
               info_id (info g) \<noteq> a) \<and>
            (\<forall>loc. \<forall>g. getAgentByLocation loc (fst (snd (removePortFromAgent a p m))) = Some g \<longrightarrow>
               info_id (info g) \<noteq> a))"
proof (intro conjI impI)
  have "(a, ps) \<in> set (agents m)" using assms(2) by (rule map_of_SomeD)
  then have dps: "distinct (map port_ref ps)" using assms(1) by (auto simp: wf_def)
  have len: "length (port_delete p ps) = length ps - 1"
    using length_port_delete [OF dps assms(4)] .
  {
    assume k: "1 < length ps"
    then have ne: "port_delete p ps \<noteq> []" using len by auto
    show "length (port_delete p ps) = length ps - 1" by (rule len)
    show r: "removePortFromAgent a p m =
              (Inr (), m\<lparr>agents := AList.update a (port_delete p ps) (agents m)\<rparr>, [])"
      using assms(2) ne by (simp add: removePortFromAgent_def Let_def)
    show "getAgentById a (fst (snd (removePortFromAgent a p m))) =
              Some \<lparr>ports = port_delete p ps, info = i\<rparr>"
      unfolding r using assms(3) by (simp add: getAgentById_def AList.update_conv')
  }
  {
    assume k: "length ps = 1"
    then have e: "port_delete p ps = []" using len by simp
    define m2 where "m2 = m\<lparr>agents := AList.delete a (agents m),
                              agentsInfo := AList.delete a (agentsInfo m)\<rparr>"
    have st: "fst (snd (removePortFromAgent a p m)) = m2"
      using assms(2,3) e by (simp add: removePort_state m2_def)
    have tr: "snd (snd (removePortFromAgent a p m)) =
                snd (emit ''agentDisconnect'' (DisconnectArgs i) m2)"
      using assms(2,3) e
      by (simp add: removePortFromAgent_def Let_def m2_def split: prod.splits)
    show "fired (snd (snd (removePortFromAgent a p m))) =
              [Fired ''agentDisconnect'' (DisconnectArgs i)]"
      unfolding tr by (rule fired_emit)
    show "getAgentById a (fst (snd (removePortFromAgent a p m))) = None"
      unfolding st by (simp add: getAgentById_def m2_def AList.delete_conv')
    show "getPortsByAgentId a (fst (snd (removePortFromAgent a p m))) = []"
      unfolding st by (simp add: getPortsByAgentId_def m2_def AList.delete_conv')
    have ids: "\<forall>e \<in> set (agentsInfo m). info_id (snd e) = fst e"
      using assms(1) by (simp add: wf_def)
    have "\<forall>e \<in> set (agentsInfo m2). info_id (snd e) \<noteq> a"
      using ids by (auto simp: m2_def set_delete)
    note acc = accessors_without [OF this]
    show "\<forall>g \<in> set (getAllAgents (fst (snd (removePortFromAgent a p m)))).
               info_id (info g) \<noteq> a"
      unfolding st using acc by blast
    show "\<forall>j \<in> set (getAllAgentsInfo (fst (snd (removePortFromAgent a p m)))).
               info_id j \<noteq> a"
      unfolding st using acc by blast
    show "\<forall>c. \<forall>g \<in> set (getAgentsByContext c (fst (snd (removePortFromAgent a p m)))).
               info_id (info g) \<noteq> a"
      unfolding st using acc by blast
    show "\<forall>q. \<forall>g \<in> set (queryAgents q (fst (snd (removePortFromAgent a p m)))).
               info_id (info g) \<noteq> a"
      unfolding st using acc by blast
    show "\<forall>loc. \<forall>g. getAgentByLocation loc (fst (snd (removePortFromAgent a p m))) = Some g \<longrightarrow>
               info_id (info g) \<noteq> a"
      unfolding st using acc by blast
  }
qed

lemma ex_registry_agents:
  "agents ex_registry = [(''a1'', [webPort 1 5 0, webPort 2 5 0]), (''a3'', [webPort 3 6 0])]"
  by code_simp

lemma ex_registry_agentsInfo:
  "agentsInfo ex_registry =
     [(''a1'', ex_info\<lparr>lastActiveAt := 11\<rparr>),
      (''a3'', \<lparr>info_id = ''a3'',
               location = \<lparr>loc_context = ContentScript, loc_tabId = 6, loc_frameId = 0\<rparr>,
               createdAt = 12, lastActiveAt = 12\<rparr>)]"
  by code_simp

lemma ex_registry_wf: "wf ex_registry"
  by (simp add: wf_def ex_registry_agents ex_registry_agentsInfo ex_info_def webPort_def)

theorem removeAgent_forced_witness:
  "map_of (agents ex_registry) ''a1'' = Some [webPort 1 5 0, webPort 2 5 0] \<and>
   map_of (agentsInfo ex_registry) ''a1'' = Some (ex_info\<lparr>lastActiveAt := 11\<rparr>) \<and>
   snd (snd (removeAgent ''a1'' ex_registry)) = [] \<and>
   agents (fst (snd (removeAgent ''a1'' ex_registry))) = [(''a3'', [webPort 3 6 0])] \<and>
   getAgentById ''a1'' (fst (snd (removeAgent ''a1'' ex_registry))) = None \<and>
   getAgentById ''a3'' (fst (snd (removeAgent ''a1'' ex_registry))) = getAgentById ''a3'' ex_registry"
proof -
  have h1: "map_of (agents ex_registry) ''a1'' = Some [webPort 1 5 0, webPort 2 5 0]"
    by (simp add: ex_registry_agents)
  have h2: "map_of (agentsInfo ex_registry) ''a1'' = Some (ex_info\<lparr>lastActiveAt := 11\<rparr>)"
    by (simp add: ex_registry_agentsInfo)
  note t = removeAgent_forced [OF h1 h2]
  have 3: "snd (snd (removeAgent ''a1'' ex_registry)) = []" using t by simp
  have 4: "agents (fst (snd (removeAgent ''a1'' ex_registry))) = [(''a3'', [webPort 3 6 0])]"
    using t by (simp add: ex_registry_agents)
  have 5: "getAgentById ''a1'' (fst (snd (removeAgent ''a1'' ex_registry))) = None"
    using t by blast
  have "\<forall>a'. a' \<noteq> ''a1'' \<longrightarrow>
          getAgentById a' (fst (snd (removeAgent ''a1'' ex_registry))) = getAgentById a' ex_registry"
    using t by blast
  then have 6: "getAgentById ''a3'' (fst (snd (removeAgent ''a1'' ex_registry))) =
           getAgentById ''a3'' ex_registry"
    by simp
  show ?thesis using h1 h2 3 4 5 6 by blast
qed

theorem removePort_reference_counting_witness:
  "wf ex_registry \<and>
   map_of (agents ex_registry) ''a1'' = Some [webPort 1 5 0, webPort 2 5 0] \<and>
   map_of (agentsInfo ex_registry) ''a1'' = Some (ex_info\<lparr>lastActiveAt := 11\<rparr>) \<and>
   port_ref (webPort 1 5 0) \<in> set (map port_ref [webPort 1 5 0, webPort 2 5 0]) \<and>
   1 < length [webPort 1 5 0, webPort 2 5 0] \<and>
   snd (snd (removePortFromAgent ''a1'' (webPort 1 5 0) ex_registry)) = [] \<and>
   getAgentById ''a1'' (fst (snd (removePortFromAgent ''a1'' (webPort 1 5 0) ex_registry))) =
     Some \<lparr>ports = [webPort 2 5 0], info = ex_info\<lparr>lastActiveAt := 11\<rparr>\<rparr> \<and>
   map_of (agents ex_registry) ''a3'' = Some [webPort 3 6 0] \<and>
   length [webPort 3 6 0] = 1 \<and>
   fired (snd (snd (removePortFromAgent ''a3'' (webPort 3 6 0) ex_registry))) =
     [Fired ''agentDisconnect'' (DisconnectArgs
        \<lparr>info_id = ''a3'',
         location = \<lparr>loc_context = ContentScript, loc_tabId = 6, loc_frameId = 0\<rparr>,
         createdAt = 12, lastActiveAt = 12\<rparr>)] \<and>
   getAgentById ''a3'' (fst (snd (removePortFromAgent ''a3'' (webPort 3 6 0) ex_registry))) = None"
proof -
  have h1: "map_of (agents ex_registry) ''a1'' = Some [webPort 1 5 0, webPort 2 5 0]"
    by (simp add: ex_registry_agents)
  have h2: "map_of (agentsInfo ex_registry) ''a1'' = Some (ex_info\<lparr>lastActiveAt := 11\<rparr>)"
    by (simp add: ex_registry_agentsInfo)
  have h3: "port_ref (webPort 1 5 0) \<in> set (map port_ref [webPort 1 5 0, webPort 2 5 0])"
    by simp
  have h4: "1 < length [webPort 1 5 0, webPort 2 5 0]" by simp
  have g1: "map_of (agents ex_registry) ''a3'' = Some [webPort 3 6 0]"
    by (simp add: ex_registry_agents)
  have g2: "map_of (agentsInfo ex_registry) ''a3'' =
      Some \<lparr>info_id = ''a3'',
            location = \<lparr>loc_context = ContentScript, loc_tabId = 6, loc_frameId = 0\<rparr>,
            createdAt = 12, lastActiveAt = 12\<rparr>"
    by (simp add: ex_registry_agentsInfo)
  have g3: "port_ref (webPort 3 6 0) \<in> set (map port_ref [webPort 3 6 0])" by simp
  have g4: "length [webPort 3 6 0] = 1" by simp
  note many = removePort_reference_counting [OF ex_registry_wf h1 h2 h3]
  note last = removePort_reference_counting [OF ex_registry_wf g1 g2 g3]
  have 1: "snd (snd (removePortFromAgent ''a1'' (webPort 1 5 0) ex_registry)) = []"
    using many h4 by simp
  have 2: "getAgentById ''a1'' (fst (snd (removePortFromAgent ''a1'' (webPort 1 5 0) ex_registry))) =
     Some \<lparr>ports = [webPort 2 5 0], info = ex_info\<lparr>lastActiveAt := 11\<rparr>\<rparr>"
  proof -
    have "getAgentById ''a1'' (fst (snd (removePortFromAgent ''a1'' (webPort 1 5 0) ex_registry))) =
     Some \<lparr>ports = port_delete (webPort 1 5 0) [webPort 1 5 0, webPort 2 5 0],
           info = ex_info\<lparr>lastActiveAt := 11\<rparr>\<rparr>"
      using many h4 by blast
    moreover have "port_delete (webPort 1 5 0) [webPort 1 5 0, webPort 2 5 0] = [webPort 2 5 0]"
      by (simp add: port_delete_def webPort_def)
    ultimately show ?thesis by simp
  qed
  have 3: "fired (snd (snd (removePortFromAgent ''a3'' (webPort 3 6 0) ex_registry))) =
     [Fired ''agentDisconnect'' (DisconnectArgs
        \<lparr>info_id = ''a3'',
         location = \<lparr>loc_context = ContentScript, loc_tabId = 6, loc_frameId = 0\<rparr>,
         createdAt = 12, lastActiveAt = 12\<rparr>)]"
    using last g4 by blast
  have 4: "getAgentById ''a3'' (fst (snd (removePortFromAgent ''a3'' (webPort 3 6 0) ex_registry))) = None"
    using last g4 by blast
  show ?thesis using ex_registry_wf h1 h2 h3 h4 g1 g2 g3 g4 1 2 3 4 by blast
qed

subsection \<open>Admission\<close>

lemma sameLocation_iff: "sameLocation loc e \<longleftrightarrow> location (snd e) = loc"
  by (auto simp: sameLocation_def)

lemma find_None_getAgentByLocation:
  "\<forall>e \<in> set (agentsInfo m). location (snd e) \<noteq> loc \<Longrightarrow> getAgentByLocation loc m = None"
proof -
  assume "\<forall>e \<in> set (agentsInfo m). location (snd e) \<noteq> loc"
  then have "find (sameLocation loc) (agentsInfo m) = None"
    by (force simp: find_None_iff sameLocation_iff)
  then show ?thesis by (simp add: getAgentByLocation_def)
qed

lemma getAgentByLocation_None:
  assumes "wf m" and "getAgentByLocation loc m = None"
  shows "\<forall>e \<in> set (agentsInfo m). location (snd e) \<noteq> loc"
proof (rule ccontr)
  assume "\<not> ?thesis"
  then obtain e0 where "e0 \<in> set (agentsInfo m)" "sameLocation loc e0"
    by (auto simp: sameLocation_iff)
  then have "find (sameLocation loc) (agentsInfo m) \<noteq> None"
    unfolding find_None_iff by blast
  then obtain e where e: "find (sameLocation loc) (agentsInfo m) = Some e" by auto
  then have ein: "e \<in> set (agentsInfo m)" by (auto simp: find_Some_iff)
  then have "fst e \<in> set (map fst (agentsInfo m))" by auto
  then have kin: "fst e \<in> set (map fst (agents m))" using assms(1) by (simp add: wf_def del: set_map)
  then obtain ps where ps: "map_of (agents m) (fst e) = Some ps"
    using map_of_keys [of "agents m" "fst e"] by auto
  then have "(fst e, ps) \<in> set (agents m)" by (rule map_of_SomeD)
  then have ne: "ps \<noteq> []" using assms(1) by (auto simp: wf_def)
  obtain i where i: "map_of (agentsInfo m) (fst e) = Some i"
    using ein map_of_keys [of "agentsInfo m" "fst e"] by force
  show False using assms(2) e ps i ne by (simp add: getAgentByLocation_def)
qed

lemma resolvedId_new: "getAgentByLocation loc m = None \<Longrightarrow> resolvedId loc fresh m = fresh"
  by (simp add: resolvedId_def str_or_def)

lemma map_of_absent: "k \<notin> set (map fst al) \<Longrightarrow> map_of al k = None"
  using map_of_keys [of al k] by auto

lemma update_absent: "k \<notin> set (map fst al) \<Longrightarrow> AList.update k v al = al @ [(k, v)]"
  by (induction al) auto

lemma filed_new:
  assumes "k \<notin> set (map fst (agents m))" and "k \<notin> set (map fst (agentsInfo m))"
  shows "filed k p (recordFor k loc now m) m =
     m\<lparr>agents := agents m @ [(k, [p])],
       agentsInfo := agentsInfo m @
         [(k, \<lparr>info_id = k, location = loc, createdAt = now, lastActiveAt = now\<rparr>)]\<rparr>"
  using assms
  by (simp add: filed_def recordFor_def portsOf_def map_of_absent update_absent port_add_def
      del: set_map)

lemma quiet_emit: "quiet ev m \<Longrightarrow> fst (emit ev a m) = Inr ()"
proof (cases "map_of (eventHandlers m) ev")
  case None
  then show ?thesis by (simp add: emit_def)
next
  case (Some hs)
  assume "quiet ev m"
  then have "\<forall>h \<in> set hs. fn_run h a = Completes" using Some by (simp add: quiet_def handlersOf_def)
  then show ?thesis using Some by (simp add: emit_def forEach_quiet)
qed

lemma quiet_filed: "quiet ev (filed k p i m) = quiet ev m"
  by (simp add: quiet_def handlersOf_def filed_def)

lemma addAgent_result_quiet:
  assumes "identityKey b p = Some loc" and "quiet ''agentSetup'' m"
  shows "fst (addAgent b p fresh now m) = Inr (Some (resolvedId loc fresh m))"
  using quiet_emit [of "''agentSetup''"] assms(2)
  by (simp add: addAgent_filed [OF assms(1)] Let_def quiet_filed)

lemma addAgent_fired:
  assumes "identityKey b p = Some loc"
  shows "fired (snd (snd (addAgent b p fresh now m))) =
     [Fired ''agentSetup''
        (SetupArgs (recordFor (resolvedId loc fresh m) loc now m) p)]"
  using fired_emit [of "''agentSetup''"]
  by (simp add: addAgent_filed [OF assms] Let_def fired_def)

lemma find_append_skip: "\<forall>x \<in> set xs. \<not> P x \<Longrightarrow> find P (xs @ ys) = find P ys"
  by (induction xs) auto

lemma map_of_snoc: "k \<notin> set (map fst al) \<Longrightarrow> map_of (al @ [(k, v)]) k = Some v"
  by (induction al) auto

text \<open>
  C1. Take a state that satisfies the invariant and has no live entity at the location
  \<open>k\<close>, and two distinct port objects that are both filed under \<open>k\<close>. Let the id
  that \<open>uuidv4()\<close> draws in the first call be a non-empty string that is not in use.
  Then the first call creates the entity under the drawn id with the first port and the
  first clock reading, and the second call puts the second port into the same entity and
  sets \<open>lastActiveAt\<close> to the second clock reading: the entity has exactly the two
  ports. When no \<open>agentSetup\<close> handler throws, the first call returns the drawn id and
  the second call returns the same id. When the clock does not run backwards between
  the calls, \<open>lastActiveAt\<close> after the second call is not less than after the first.
\<close>

theorem addAgent_merge:
  assumes "wf m"
    and "identityKey b p1 = Some k" and "identityKey b p2 = Some k"
    and "port_ref p1 \<noteq> port_ref p2"
    and "getAgentByLocation k m = None"
    and "fresh1 \<noteq> []" and "fresh1 \<notin> set (map fst (agentsInfo m))"
  shows "let r1 = addAgent b p1 fresh1 now1 m; m1 = fst (snd r1);
             r2 = addAgent b p2 fresh2 now2 m1; m2 = fst (snd r2)
         in getAgentById fresh1 m1 =
              Some \<lparr>ports = [p1],
                    info = \<lparr>info_id = fresh1, location = k, createdAt = now1,
                            lastActiveAt = now1\<rparr>\<rparr> \<and>
            getAgentById fresh1 m2 =
              Some \<lparr>ports = [p1, p2],
                    info = \<lparr>info_id = fresh1, location = k, createdAt = now1,
                            lastActiveAt = now2\<rparr>\<rparr> \<and>
            length (getPortsByAgentId fresh1 m2) = 2 \<and>
            (quiet ''agentSetup'' m \<longrightarrow>
               fst r1 = Inr (Some fresh1) \<and> fst r2 = Inr (Some fresh1)) \<and>
            (now1 \<le> now2 \<longrightarrow>
               lastActiveAt (info (the (getAgentById fresh1 m1))) \<le>
                 lastActiveAt (info (the (getAgentById fresh1 m2))))"
proof -
  define I1 where "I1 = \<lparr>info_id = fresh1, location = k, createdAt = now1, lastActiveAt = now1\<rparr>"
  define m1 where "m1 = fst (snd (addAgent b p1 fresh1 now1 m))"
  define m2 where "m2 = fst (snd (addAgent b p2 fresh2 now2 m1))"
  have noloc: "\<forall>e \<in> set (agentsInfo m). location (snd e) \<noteq> k"
    using getAgentByLocation_None [OF assms(1) assms(5)] .
  have fa: "fresh1 \<notin> set (map fst (agents m))"
    using assms(1,7) by (simp add: wf_def del: set_map)
  have id1: "resolvedId k fresh1 m = fresh1" using assms(5) by (rule resolvedId_new)
  have m1: "m1 = m\<lparr>agents := agents m @ [(fresh1, [p1])],
                    agentsInfo := agentsInfo m @ [(fresh1, I1)]\<rparr>"
    unfolding m1_def addAgent_state [OF assms(2)] id1 I1_def
    using fa assms(7) by (rule filed_new)
  have a1: "map_of (agents m1) fresh1 = Some [p1]"
    unfolding m1 using fa by (simp add: map_of_snoc del: set_map map_of_append)
  have i1: "map_of (agentsInfo m1) fresh1 = Some I1"
    unfolding m1 using assms(7) by (simp add: map_of_snoc del: set_map map_of_append)
  have "find (sameLocation k) (agentsInfo m1) = Some (fresh1, I1)"
  proof -
    have "\<forall>x \<in> set (agentsInfo m). \<not> sameLocation k x"
      using noloc by (simp add: sameLocation_iff)
    then have "find (sameLocation k) (agentsInfo m @ [(fresh1, I1)]) =
               find (sameLocation k) [(fresh1, I1)]"
      by (rule find_append_skip)
    then show ?thesis unfolding m1 by (simp add: sameLocation_iff I1_def)
  qed
  then have gl: "getAgentByLocation k m1 = Some \<lparr>ports = [p1], info = I1\<rparr>"
    using a1 i1 by (simp add: getAgentByLocation_def)
  have id2: "resolvedId k fresh2 m1 = fresh1"
    using gl assms(6) by (simp add: resolvedId_def str_or_def I1_def)
  have pa: "port_add p2 [p1] = [p1, p2]"
    using assms(4) by (auto simp: port_add_def)
  have m2: "m2 = m1\<lparr>agents := AList.update fresh1 [p1, p2] (agents m1),
                     agentsInfo := AList.update fresh1 (I1\<lparr>lastActiveAt := now2\<rparr>) (agentsInfo m1)\<rparr>"
    unfolding m2_def addAgent_state [OF assms(3)] id2
    using a1 i1 pa by (simp add: filed_def recordFor_def portsOf_def)
  have g1: "getAgentById fresh1 m1 = Some \<lparr>ports = [p1], info = I1\<rparr>"
    using a1 i1 by (simp add: getAgentById_def)
  have g2: "getAgentById fresh1 m2 =
              Some \<lparr>ports = [p1, p2], info = I1\<lparr>lastActiveAt := now2\<rparr>\<rparr>"
    unfolding m2 by (simp add: getAgentById_def AList.update_conv')
  have p2: "getPortsByAgentId fresh1 m2 = [p1, p2]"
    unfolding m2 by (simp add: getPortsByAgentId_def AList.update_conv')
  have r: "fst (addAgent b p1 fresh1 now1 m) = Inr (Some fresh1) \<and>
           fst (addAgent b p2 fresh2 now2 m1) = Inr (Some fresh1)"
    if q: "quiet ''agentSetup'' m"
  proof -
    have q1: "quiet ''agentSetup'' m1"
      using q unfolding m1 by (simp add: quiet_def handlersOf_def)
    show ?thesis
      using addAgent_result_quiet [OF assms(2) q] addAgent_result_quiet [OF assms(3) q1] id1 id2
      by simp
  qed
  show ?thesis
    unfolding Let_def m1_def [symmetric] m2_def [symmetric]
    using r g1 g2 p2
    by (simp add: I1_def m1_def [symmetric])
qed

lemma ex_hub_wf: "wf ex_hub"
  unfolding ex_hub_def by (rule wf_on [OF wf_new])

lemma ex_hub_quiet: "quiet ''agentSetup'' ex_hub"
  by (simp add: quiet_def handlersOf_def ex_hub_def on_def new_AgentManager_def fn_add_def
      ex_listener_def)

theorem addAgent_merge_witness:
  "wf ex_hub \<and> identityKey ex_browser (webPort 1 5 0) = Some ex_key \<and>
   identityKey ex_browser (webPort 2 5 0) = Some ex_key \<and>
   port_ref (webPort 1 5 0) \<noteq> port_ref (webPort 2 5 0) \<and>
   getAgentByLocation ex_key ex_hub = None \<and> ''a1'' \<noteq> [] \<and>
   ''a1'' \<notin> set (map fst (agentsInfo ex_hub)) \<and> quiet ''agentSetup'' ex_hub \<and>
   (10 :: int) \<le> 11 \<and>
   fst (addAgent ex_browser (webPort 1 5 0) ''a1'' 10 ex_hub) = Inr (Some ''a1'') \<and>
   fst (addAgent ex_browser (webPort 2 5 0) ''a2'' 11
          (fst (snd (addAgent ex_browser (webPort 1 5 0) ''a1'' 10 ex_hub)))) = Inr (Some ''a1'') \<and>
   length (getPortsByAgentId ''a1''
     (fst (snd (addAgent ex_browser (webPort 2 5 0) ''a2'' 11
        (fst (snd (addAgent ex_browser (webPort 1 5 0) ''a1'' 10 ex_hub))))))) = 2 \<and>
   lastActiveAt (info (the (getAgentById ''a1''
     (fst (snd (addAgent ex_browser (webPort 1 5 0) ''a1'' 10 ex_hub)))))) \<le>
   lastActiveAt (info (the (getAgentById ''a1''
     (fst (snd (addAgent ex_browser (webPort 2 5 0) ''a2'' 11
        (fst (snd (addAgent ex_browser (webPort 1 5 0) ''a1'' 10 ex_hub)))))))))"
proof -
  have h2: "identityKey ex_browser (webPort 1 5 0) = Some ex_key" by code_simp
  have h3: "identityKey ex_browser (webPort 2 5 0) = Some ex_key" by code_simp
  have h4: "port_ref (webPort 1 5 0) \<noteq> port_ref (webPort 2 5 0)" by (simp add: webPort_def)
  have h5: "getAgentByLocation ex_key ex_hub = None" by code_simp
  have h6: "''a1'' \<noteq> []" by simp
  have h7: "''a1'' \<notin> set (map fst (agentsInfo ex_hub))"
    by (simp add: ex_hub_def on_def new_AgentManager_def)
  have h9: "(10 :: int) \<le> 11" by simp
  note t = addAgent_merge [where ?fresh2.0 = "''a2''" and ?now1.0 = 10 and ?now2.0 = 11,
      OF ex_hub_wf h2 h3 h4 h5 h6 h7, unfolded Let_def]
  have c1: "fst (addAgent ex_browser (webPort 1 5 0) ''a1'' 10 ex_hub) = Inr (Some ''a1'')"
    using t ex_hub_quiet by blast
  have c2: "fst (addAgent ex_browser (webPort 2 5 0) ''a2'' 11
          (fst (snd (addAgent ex_browser (webPort 1 5 0) ''a1'' 10 ex_hub)))) = Inr (Some ''a1'')"
    using t ex_hub_quiet by blast
  have c3: "length (getPortsByAgentId ''a1''
     (fst (snd (addAgent ex_browser (webPort 2 5 0) ''a2'' 11
        (fst (snd (addAgent ex_browser (webPort 1 5 0) ''a1'' 10 ex_hub))))))) = 2"
    using t by blast
  have c4: "lastActiveAt (info (the (getAgentById ''a1''
     (fst (snd (addAgent ex_browser (webPort 1 5 0) ''a1'' 10 ex_hub)))))) \<le>
   lastActiveAt (info (the (getAgentById ''a1''
     (fst (snd (addAgent ex_browser (webPort 2 5 0) ''a2'' 11
        (fst (snd (addAgent ex_browser (webPort 1 5 0) ''a1'' 10 ex_hub)))))))))"
    using t h9 by blast
  show ?thesis using ex_hub_wf h2 h3 h4 h5 h6 h7 ex_hub_quiet h9 c1 c2 c3 c4 by blast
qed

lemma sender_classified:
  "sender p = Some s \<Longrightarrow> identifyConnectionSource b p \<noteq> Inr None"
  by (simp add: identifyConnectionSource_def Let_def split: option.splits prod.splits)

lemma sender_parses_key:
  "sender p = Some s \<Longrightarrow> urlParses b p \<Longrightarrow> identityKey b p \<noteq> None"
  by (auto simp: identityKey_def urlParses_def identifyConnectionSource_def Let_def
      split: option.splits prod.splits sum.splits if_splits)

lemma sender_unparsed:
  "sender p = Some s \<Longrightarrow> \<not> urlParses b p \<Longrightarrow> identifyConnectionSource b p = Inl TypeError"
  by (auto simp: urlParses_def identifyConnectionSource_def Let_def
      split: option.splits if_splits)

lemma addAgent_thrown_early:
  "identifyConnectionSource b p = Inl e \<Longrightarrow> addAgent b p fresh now m = (Inl e, m, [])"
  by (simp add: addAgent_def)

lemma addAgent_no_sender: "sender p = None \<Longrightarrow> addAgent b p fresh now m = (Inr None, m, [])"
  by (simp add: addAgent_def identifyConnectionSource_def)

lemma addAgent_sender_result:
  assumes "sender p = Some s"
  shows "fst (addAgent b p fresh now m) \<noteq> Inr None"
proof (cases "identifyConnectionSource b p")
  case (Inl e)
  then show ?thesis by (simp add: addAgent_def)
next
  case (Inr c)
  then obtain cs where cs: "identifyConnectionSource b p = Inr (Some cs)"
    using sender_classified [OF assms, of b] by (cases c) auto
  then have "identityKey b p = Some (determinedLocation cs)" by (simp add: identityKey_def)
  then show ?thesis
    by (simp add: addAgent_filed Let_def split: sum.splits)
qed

lemma filed_has_key: "map_of (agents (filed k p i m)) k \<noteq> None"
  by (simp add: filed_def AList.update_conv')

lemma filed_has_record: "map_of (agentsInfo (filed k p i m)) k = Some i"
  by (simp add: filed_def AList.update_conv')

lemma handlersOf_filed: "handlersOf ev (filed k p i m) = handlersOf ev m"
  by (simp add: handlersOf_def filed_def)

lemma no_thrower:
  "find (\<lambda>h. fn_run h a = Throws) hs = None \<longleftrightarrow> (\<forall>h \<in> set hs. fn_run h a = Completes)"
proof (induction hs)
  case Nil
  then show ?case by simp
next
  case (Cons g gs)
  then show ?case by (cases "fn_run g a") simp_all
qed

lemma emit_result:
  "fst (emit ev a m) =
     (case find (\<lambda>h. fn_run h a = Throws) (handlersOf ev m) of
        None \<Rightarrow> Inr ()
      | Some h \<Rightarrow> Inl (HandlerThrew (fn_ref h)))"
proof (cases "map_of (eventHandlers m) ev")
  case None
  then show ?thesis by (simp add: emit_def handlersOf_def)
next
  case (Some hs)
  then show ?thesis
    by (simp add: emit_def handlersOf_def forEach_find split: option.splits)
qed

lemma addAgent_outcome:
  assumes "identityKey b p = Some loc"
  shows "fst (addAgent b p fresh now m) =
     (case find (\<lambda>h. fn_run h (SetupArgs (recordFor (resolvedId loc fresh m) loc now m) p) = Throws)
             (handlersOf ''agentSetup'' m) of
        None \<Rightarrow> Inr (Some (resolvedId loc fresh m))
      | Some h \<Rightarrow> Inl (HandlerThrew (fn_ref h)))"
  by (simp add: addAgent_filed [OF assms] Let_def emit_result handlersOf_filed
      split: option.splits)

text \<open>
  C6, as the code has it. \<open>addAgent\<close> returns \<open>undefined\<close> exactly when the port has
  no sender, and then the state is the one before and the trace is empty: nothing
  created, nothing fired. With a sender there are two ways for the call not to return.
  When the sender's url is one that the classifier parses and the \<open>URL\<close> constructor
  rejects it, the \<open>TypeError\<close> leaves \<open>addAgent\<close> with the state unchanged and nothing
  fired. Otherwise the entity is created or extended and \<open>agentSetup\<close> is fired exactly
  once, with the record of the entity and the port; the call then returns the id of the
  entity when every \<open>agentSetup\<close> handler returns on that event, and when one throws,
  its exception leaves \<open>addAgent\<close> in place of a return.
\<close>

theorem addAgent_rejection:
  "(fst (addAgent b p fresh now m) = Inr None \<longleftrightarrow> sender p = None) \<and>
   (sender p = None \<longrightarrow> addAgent b p fresh now m = (Inr None, m, [])) \<and>
   (sender p \<noteq> None \<longrightarrow> \<not> urlParses b p \<longrightarrow>
      addAgent b p fresh now m = (Inl TypeError, m, [])) \<and>
   (sender p \<noteq> None \<longrightarrow> urlParses b p \<longrightarrow>
      (\<exists>a i. map_of (agents (fst (snd (addAgent b p fresh now m)))) a \<noteq> None \<and>
             map_of (agentsInfo (fst (snd (addAgent b p fresh now m)))) a = Some i \<and>
             fired (snd (snd (addAgent b p fresh now m))) =
               [Fired ''agentSetup'' (SetupArgs i p)] \<and>
             ((\<forall>h \<in> set (handlersOf ''agentSetup'' m). fn_run h (SetupArgs i p) = Completes) \<longrightarrow>
                fst (addAgent b p fresh now m) = Inr (Some a)) \<and>
             (\<not> (\<forall>h \<in> set (handlersOf ''agentSetup'' m). fn_run h (SetupArgs i p) = Completes) \<longrightarrow>
                (\<exists>r. fst (addAgent b p fresh now m) = Inl (HandlerThrew r)))))"
proof (intro conjI impI)
  show "fst (addAgent b p fresh now m) = Inr None \<longleftrightarrow> sender p = None"
    using addAgent_no_sender [of p b fresh now m] addAgent_sender_result [of p _ b fresh now m]
    by (cases "sender p") auto
  show "addAgent b p fresh now m = (Inr None, m, [])" if "sender p = None"
    using that by (rule addAgent_no_sender)
  show "addAgent b p fresh now m = (Inl TypeError, m, [])"
    if "sender p \<noteq> None" and "\<not> urlParses b p"
    using that sender_unparsed [of p _ b] addAgent_thrown_early [of b p TypeError fresh now m]
    by auto
  assume s: "sender p \<noteq> None" and u: "urlParses b p"
  then obtain loc where loc: "identityKey b p = Some loc"
    using sender_parses_key [of p _ b] by auto
  define a where "a = resolvedId loc fresh m"
  define i where "i = recordFor a loc now m"
  have 1: "map_of (agents (fst (snd (addAgent b p fresh now m)))) a \<noteq> None"
    unfolding addAgent_state [OF loc] a_def by (rule filed_has_key)
  have 2: "map_of (agentsInfo (fst (snd (addAgent b p fresh now m)))) a = Some i"
    unfolding addAgent_state [OF loc] a_def i_def by (rule filed_has_record)
  have 3: "fired (snd (snd (addAgent b p fresh now m))) = [Fired ''agentSetup'' (SetupArgs i p)]"
    unfolding i_def a_def by (rule addAgent_fired [OF loc])
  note out = addAgent_outcome [OF loc, of fresh now m, folded a_def, folded i_def]
  have 4: "fst (addAgent b p fresh now m) = Inr (Some a)"
    if "\<forall>h \<in> set (handlersOf ''agentSetup'' m). fn_run h (SetupArgs i p) = Completes"
    using that out no_thrower [of "SetupArgs i p" "handlersOf ''agentSetup'' m"] by simp
  have 5: "\<exists>r. fst (addAgent b p fresh now m) = Inl (HandlerThrew r)"
    if "\<not> (\<forall>h \<in> set (handlersOf ''agentSetup'' m). fn_run h (SetupArgs i p) = Completes)"
  proof -
    have "find (\<lambda>h. fn_run h (SetupArgs i p) = Throws) (handlersOf ''agentSetup'' m) \<noteq> None"
      using that no_thrower [of "SetupArgs i p" "handlersOf ''agentSetup'' m"] by simp
    then show ?thesis using out by auto
  qed
  show "\<exists>a i. map_of (agents (fst (snd (addAgent b p fresh now m)))) a \<noteq> None \<and>
             map_of (agentsInfo (fst (snd (addAgent b p fresh now m)))) a = Some i \<and>
             fired (snd (snd (addAgent b p fresh now m))) =
               [Fired ''agentSetup'' (SetupArgs i p)] \<and>
             ((\<forall>h \<in> set (handlersOf ''agentSetup'' m). fn_run h (SetupArgs i p) = Completes) \<longrightarrow>
                fst (addAgent b p fresh now m) = Inr (Some a)) \<and>
             (\<not> (\<forall>h \<in> set (handlersOf ''agentSetup'' m). fn_run h (SetupArgs i p) = Completes) \<longrightarrow>
                (\<exists>r. fst (addAgent b p fresh now m) = Inl (HandlerThrew r)))"
    using 1 2 3 4 5 by blast
qed

theorem addAgent_rejection_witness:
  "sender ex_noSender = None \<and>
   addAgent ex_browser ex_noSender ''a1'' 10 ex_hub = (Inr None, ex_hub, []) \<and>
   sender ex_extPort \<noteq> None \<and> \<not> urlParses ex_rejecting ex_extPort \<and>
   addAgent ex_rejecting ex_extPort ''a1'' 10 ex_hub = (Inl TypeError, ex_hub, []) \<and>
   sender (webPort 1 5 0) \<noteq> None \<and> urlParses ex_browser (webPort 1 5 0) \<and>
   quiet ''agentSetup'' ex_hub \<and>
   (\<exists>a. fst (addAgent ex_browser (webPort 1 5 0) ''a1'' 10 ex_hub) = Inr (Some a)) \<and>
   fst (addAgent ex_browser (webPort 1 5 0) ''a1'' 10 ex_hub) = Inr (Some ''a1'') \<and>
   sender ex_noUrl \<noteq> None \<and> urlParses ex_rejecting ex_noUrl \<and>
   (\<exists>a. fst (addAgent ex_rejecting ex_noUrl ''a1'' 10 ex_hub) = Inr (Some a)) \<and>
   handlersOf ''agentSetup'' ex_throwing_hub = [ex_thrower] \<and>
   (\<exists>r. fst (addAgent ex_browser (webPort 1 5 0) ''a1'' 10 ex_throwing_hub) =
          Inl (HandlerThrew r))"
proof -
  have n: "sender ex_noSender = None" by (simp add: ex_noSender_def)
  have e: "sender ex_extPort \<noteq> None" by (simp add: ex_extPort_def)
  have eu: "\<not> urlParses ex_rejecting ex_extPort" by code_simp
  have s: "sender (webPort 1 5 0) \<noteq> None" by (simp add: webPort_def)
  have u: "urlParses ex_browser (webPort 1 5 0)" by code_simp
  have l: "sender ex_noUrl \<noteq> None" by (simp add: ex_noUrl_def)
  have lu: "urlParses ex_rejecting ex_noUrl" by code_simp
  have q: "\<forall>h \<in> set (handlersOf ''agentSetup'' ex_hub). fn_run h x = Completes" for x
    using ex_hub_quiet by (simp add: quiet_def)
  have th: "handlersOf ''agentSetup'' ex_throwing_hub = [ex_thrower]"
    by (simp add: handlersOf_def ex_throwing_hub_def on_def new_AgentManager_def fn_add_def)
  have tq: "\<not> (\<forall>h \<in> set (handlersOf ''agentSetup'' ex_throwing_hub). fn_run h x = Completes)" for x
    unfolding th by (simp add: ex_thrower_def)
  note r1 = addAgent_rejection [of ex_browser ex_noSender "''a1''" 10 ex_hub]
  note r2 = addAgent_rejection [of ex_rejecting ex_extPort "''a1''" 10 ex_hub]
  note r3 = addAgent_rejection [of ex_browser "webPort 1 5 0" "''a1''" 10 ex_hub]
  note r4 = addAgent_rejection [of ex_rejecting ex_noUrl "''a1''" 10 ex_hub]
  note r5 = addAgent_rejection [of ex_browser "webPort 1 5 0" "''a1''" 10 ex_throwing_hub]
  have 1: "addAgent ex_browser ex_noSender ''a1'' 10 ex_hub = (Inr None, ex_hub, [])"
    using r1 n by blast
  have 2: "addAgent ex_rejecting ex_extPort ''a1'' 10 ex_hub = (Inl TypeError, ex_hub, [])"
    using r2 e eu by blast
  have 3: "\<exists>a. fst (addAgent ex_browser (webPort 1 5 0) ''a1'' 10 ex_hub) = Inr (Some a)"
    using r3 s u q by blast
  have 4: "fst (addAgent ex_browser (webPort 1 5 0) ''a1'' 10 ex_hub) = Inr (Some ''a1'')"
    by code_simp
  have 5: "\<exists>a. fst (addAgent ex_rejecting ex_noUrl ''a1'' 10 ex_hub) = Inr (Some a)"
    using r4 l lu q by blast
  have 6: "\<exists>r. fst (addAgent ex_browser (webPort 1 5 0) ''a1'' 10 ex_throwing_hub) =
          Inl (HandlerThrew r)"
    using r5 s u tq by blast
  show ?thesis using n 1 e eu 2 s u ex_hub_quiet 3 4 l lu 5 th 6 by blast
qed

text \<open>
  C6, as the claim has it, fails. A page connects while the only \<open>agentSetup\<close> handler
  is one that throws: the port has a sender, the entity is created and the event fired,
  and the call ends with the handler's exception, returning no id. An extension page
  connects on a host whose \<open>URL\<close> constructor rejects its url: the port has a sender,
  and the call ends with the \<open>TypeError\<close>, nothing created and nothing fired.
\<close>

theorem addAgent_rejection_counterexample:
  "sender (webPort 1 5 0) =
     Some \<lparr>sender_tab = Some \<lparr>tab_id = Some 5\<rparr>, sender_url = Some ''http://example.com'',
           sender_frameId = Some 0\<rparr> \<and>
   fst (addAgent ex_browser (webPort 1 5 0) ''a1'' 10 ex_throwing_hub) = Inl (HandlerThrew 1) \<and>
   agents (fst (snd (addAgent ex_browser (webPort 1 5 0) ''a1'' 10 ex_throwing_hub))) =
     [(''a1'', [webPort 1 5 0])] \<and>
   fired (snd (snd (addAgent ex_browser (webPort 1 5 0) ''a1'' 10 ex_throwing_hub))) =
     [Fired ''agentSetup'' (SetupArgs ex_info (webPort 1 5 0))] \<and>
   sender ex_extPort =
     Some \<lparr>sender_tab = None, sender_url = Some ''chrome-extension://abc/popup.html'',
           sender_frameId = None\<rparr> \<and>
   fst (addAgent ex_rejecting ex_extPort ''a1'' 10 new_AgentManager) = Inl TypeError \<and>
   agents (fst (snd (addAgent ex_rejecting ex_extPort ''a1'' 10 new_AgentManager))) = [] \<and>
   snd (snd (addAgent ex_rejecting ex_extPort ''a1'' 10 new_AgentManager)) = []"
  by code_simp

subsection \<open>Sequences of admissions\<close>

lemma addAgents_Cons:
  "addAgents b (c # cs) m =
     (fst (addAgent b (fst c) (fst (snd c)) (snd (snd c)) m) #
        fst (addAgents b cs (fst (snd (addAgent b (fst c) (fst (snd c)) (snd (snd c)) m)))),
      snd (addAgents b cs (fst (snd (addAgent b (fst c) (fst (snd c)) (snd (snd c)) m)))))"
  by (simp split: prod.splits)

lemma addAgents_fresh:
  assumes "\<forall>c \<in> set cs. identityKey b (fst c) \<noteq> None"
    and "distinct (map (\<lambda>c. identityKey b (fst c)) cs)"
    and "distinct (map (\<lambda>c. fst (snd c)) cs)"
    and "\<forall>c \<in> set cs. fst (snd c) \<notin> set (map fst (agents m)) \<and>
                       fst (snd c) \<notin> set (map fst (agentsInfo m))"
    and "\<forall>c \<in> set cs. \<forall>e \<in> set (agentsInfo m). Some (location (snd e)) \<noteq> identityKey b (fst c)"
    and "quiet ''agentSetup'' m"
  shows "addAgents b cs m =
     (map (\<lambda>c. Inr (Some (fst (snd c)))) cs,
      m\<lparr>agents := agents m @ map (\<lambda>c. (fst (snd c), [fst c])) cs,
        agentsInfo := agentsInfo m @
          map (\<lambda>c. (fst (snd c),
                     \<lparr>info_id = fst (snd c), location = the (identityKey b (fst c)),
                      createdAt = snd (snd c), lastActiveAt = snd (snd c)\<rparr>)) cs\<rparr>)"
  using assms
proof (induction cs arbitrary: m)
  case Nil
  then show ?case by simp
next
  case (Cons c cs)
  obtain loc where loc: "identityKey b (fst c) = Some loc" using Cons.prems(1) by auto
  define f where "f = fst (snd c)"
  define I where "I = \<lparr>info_id = f, location = loc, createdAt = snd (snd c),
                       lastActiveAt = snd (snd c)\<rparr>"
  define m' where "m' = m\<lparr>agents := agents m @ [(f, [fst c])],
                          agentsInfo := agentsInfo m @ [(f, I)]\<rparr>"
  have "\<forall>e \<in> set (agentsInfo m). location (snd e) \<noteq> loc"
    using Cons.prems(5) loc by auto
  then have none: "getAgentByLocation loc m = None" by (rule find_None_getAgentByLocation)
  have id: "resolvedId loc (fst (snd c)) m = f"
    unfolding f_def using none by (rule resolvedId_new)
  have fk: "f \<notin> set (map fst (agents m))" "f \<notin> set (map fst (agentsInfo m))"
    using Cons.prems(4) by (simp_all add: f_def)
  have st: "fst (snd (addAgent b (fst c) (fst (snd c)) (snd (snd c)) m)) = m'"
    unfolding addAgent_state [OF loc] id m'_def I_def using fk by (rule filed_new)
  have r: "fst (addAgent b (fst c) (fst (snd c)) (snd (snd c)) m) = Inr (Some f)"
    using addAgent_result_quiet [OF loc Cons.prems(6)] id by simp
  have p1: "\<forall>c \<in> set cs. identityKey b (fst c) \<noteq> None" using Cons.prems(1) by simp
  have p2: "distinct (map (\<lambda>c. identityKey b (fst c)) cs)" using Cons.prems(2) by simp
  have p3: "distinct (map (\<lambda>c. fst (snd c)) cs)" using Cons.prems(3) by simp
  have p4: "\<forall>c \<in> set cs. fst (snd c) \<notin> set (map fst (agents m')) \<and>
                          fst (snd c) \<notin> set (map fst (agentsInfo m'))"
  proof (intro ballI)
    fix c' assume c': "c' \<in> set cs"
    have "fst (snd c') \<noteq> f" using Cons.prems(3) c' by (force simp: f_def)
    then show "fst (snd c') \<notin> set (map fst (agents m')) \<and>
               fst (snd c') \<notin> set (map fst (agentsInfo m'))"
      using Cons.prems(4) c' by (simp add: m'_def)
  qed
  have p5: "\<forall>c \<in> set cs. \<forall>e \<in> set (agentsInfo m').
              Some (location (snd e)) \<noteq> identityKey b (fst c)"
  proof (intro ballI)
    fix c' e assume c': "c' \<in> set cs" and e: "e \<in> set (agentsInfo m')"
    have "identityKey b (fst c') \<noteq> Some loc" using Cons.prems(2) c' loc by force
    moreover have "e \<in> set (agentsInfo m) \<or> e = (f, I)" using e by (auto simp: m'_def)
    ultimately show "Some (location (snd e)) \<noteq> identityKey b (fst c')"
      using Cons.prems(5) c' by (auto simp: I_def)
  qed
  have p6: "quiet ''agentSetup'' m'"
    using Cons.prems(6) by (simp add: quiet_def handlersOf_def m'_def)
  note ih = Cons.IH [OF p1 p2 p3 p4 p5 p6]
  show ?case
    unfolding addAgents_Cons st r ih
    by (simp add: m'_def I_def f_def loc)
qed

lemma addAgent_result_cases:
  assumes "identityKey b p = Some loc"
  shows "fst (addAgent b p fresh now m) = Inr (Some (resolvedId loc fresh m)) \<or>
         (\<exists>e. fst (addAgent b p fresh now m) = Inl e)"
  by (simp add: addAgent_filed [OF assms] Let_def split: sum.splits)

lemma addAgents_state:
  assumes "\<forall>c \<in> set cs. identityKey b (fst c) \<noteq> None"
    and "distinct (map (\<lambda>c. identityKey b (fst c)) cs)"
    and "distinct (map (\<lambda>c. fst (snd c)) cs)"
    and "\<forall>c \<in> set cs. fst (snd c) \<notin> set (map fst (agents m)) \<and>
                       fst (snd c) \<notin> set (map fst (agentsInfo m))"
    and "\<forall>c \<in> set cs. \<forall>e \<in> set (agentsInfo m). Some (location (snd e)) \<noteq> identityKey b (fst c)"
  shows "snd (addAgents b cs m) =
      m\<lparr>agents := agents m @ map (\<lambda>c. (fst (snd c), [fst c])) cs,
        agentsInfo := agentsInfo m @
          map (\<lambda>c. (fst (snd c),
                     \<lparr>info_id = fst (snd c), location = the (identityKey b (fst c)),
                      createdAt = snd (snd c), lastActiveAt = snd (snd c)\<rparr>)) cs\<rparr> \<and>
     list_all2 (\<lambda>r c. r = Inr (Some (fst (snd c))) \<or> (\<exists>e. r = Inl e))
       (fst (addAgents b cs m)) cs"
  using assms
proof (induction cs arbitrary: m)
  case Nil
  then show ?case by simp
next
  case (Cons c cs)
  obtain loc where loc: "identityKey b (fst c) = Some loc" using Cons.prems(1) by auto
  define f where "f = fst (snd c)"
  define I where "I = \<lparr>info_id = f, location = loc, createdAt = snd (snd c),
                       lastActiveAt = snd (snd c)\<rparr>"
  define m' where "m' = m\<lparr>agents := agents m @ [(f, [fst c])],
                          agentsInfo := agentsInfo m @ [(f, I)]\<rparr>"
  have "\<forall>e \<in> set (agentsInfo m). location (snd e) \<noteq> loc"
    using Cons.prems(5) loc by auto
  then have none: "getAgentByLocation loc m = None" by (rule find_None_getAgentByLocation)
  have id: "resolvedId loc (fst (snd c)) m = f"
    unfolding f_def using none by (rule resolvedId_new)
  have fk: "f \<notin> set (map fst (agents m))" "f \<notin> set (map fst (agentsInfo m))"
    using Cons.prems(4) by (simp_all add: f_def)
  have st: "fst (snd (addAgent b (fst c) (fst (snd c)) (snd (snd c)) m)) = m'"
    unfolding addAgent_state [OF loc] id m'_def I_def using fk by (rule filed_new)
  have r: "fst (addAgent b (fst c) (fst (snd c)) (snd (snd c)) m) = Inr (Some f) \<or>
           (\<exists>e. fst (addAgent b (fst c) (fst (snd c)) (snd (snd c)) m) = Inl e)"
    using addAgent_result_cases [OF loc, of "fst (snd c)" "snd (snd c)" m] id by simp
  have p1: "\<forall>c \<in> set cs. identityKey b (fst c) \<noteq> None" using Cons.prems(1) by simp
  have p2: "distinct (map (\<lambda>c. identityKey b (fst c)) cs)" using Cons.prems(2) by simp
  have p3: "distinct (map (\<lambda>c. fst (snd c)) cs)" using Cons.prems(3) by simp
  have p4: "\<forall>c \<in> set cs. fst (snd c) \<notin> set (map fst (agents m')) \<and>
                          fst (snd c) \<notin> set (map fst (agentsInfo m'))"
  proof (intro ballI)
    fix c' assume c': "c' \<in> set cs"
    have "fst (snd c') \<noteq> f" using Cons.prems(3) c' by (force simp: f_def)
    then show "fst (snd c') \<notin> set (map fst (agents m')) \<and>
               fst (snd c') \<notin> set (map fst (agentsInfo m'))"
      using Cons.prems(4) c' by (simp add: m'_def)
  qed
  have p5: "\<forall>c \<in> set cs. \<forall>e \<in> set (agentsInfo m').
              Some (location (snd e)) \<noteq> identityKey b (fst c)"
  proof (intro ballI)
    fix c' e assume c': "c' \<in> set cs" and e: "e \<in> set (agentsInfo m')"
    have "identityKey b (fst c') \<noteq> Some loc" using Cons.prems(2) c' loc by force
    moreover have "e \<in> set (agentsInfo m) \<or> e = (f, I)" using e by (auto simp: m'_def)
    ultimately show "Some (location (snd e)) \<noteq> identityKey b (fst c')"
      using Cons.prems(5) c' by (auto simp: I_def)
  qed
  note ih = Cons.IH [OF p1 p2 p3 p4 p5]
  have s: "snd (addAgents b (c # cs) m) = snd (addAgents b cs m')"
    unfolding addAgents_Cons st by simp
  have f: "fst (addAgents b (c # cs) m) =
           fst (addAgent b (fst c) (fst (snd c)) (snd (snd c)) m) # fst (addAgents b cs m')"
    unfolding addAgents_Cons st by simp
  show ?case
    unfolding s f using ih r by (auto simp: m'_def I_def f_def loc)
qed

lemma returnedIds_sub:
  "list_all2 (\<lambda>r c. r = Inr (Some (g c)) \<or> (\<exists>e. r = Inl e)) rs cs \<Longrightarrow>
   set (returnedIds rs) \<subseteq> set (map g cs) \<and> (distinct (map g cs) \<longrightarrow> distinct (returnedIds rs))"
proof (induction rule: list_all2_induct)
  case Nil
  then show ?case by simp
next
  case (Cons r rs c cs)
  then show ?case by auto
qed

lemma returnedIds_all: "returnedIds (map (\<lambda>c. Inr (Some (g c))) cs) = map g cs"
  by (induction cs) auto

text \<open>
  C2. Start from a registry without entities, whatever its subscriptions, and make any
  sequence of \<open>addAgent\<close> calls whose ports are filed under pairwise distinct locations,
  the ids that \<open>uuidv4()\<close> draws being pairwise distinct. Afterwards there is one
  entity per call, in the order of the calls, under the id drawn for the call, and its
  port set holds the port of that call and nothing else. The ids that the calls
  returned are pairwise distinct; and when no \<open>agentSetup\<close> handler throws, every call
  returns, and returns the id drawn for it.
\<close>

theorem addAgents_uniqueness:
  assumes "agents m = []" and "agentsInfo m = []"
    and "\<forall>c \<in> set cs. identityKey b (fst c) \<noteq> None"
    and "distinct (map (\<lambda>c. identityKey b (fst c)) cs)"
    and "distinct (map (\<lambda>c. fst (snd c)) cs)"
  shows "agents (snd (addAgents b cs m)) = map (\<lambda>c. (fst (snd c), [fst c])) cs \<and>
         map fst (agentsInfo (snd (addAgents b cs m))) = map (\<lambda>c. fst (snd c)) cs \<and>
         (\<forall>e \<in> set (agents (snd (addAgents b cs m))). length (snd e) = 1) \<and>
         distinct (returnedIds (fst (addAgents b cs m))) \<and>
         (quiet ''agentSetup'' m \<longrightarrow>
            fst (addAgents b cs m) = map (\<lambda>c. Inr (Some (fst (snd c)))) cs \<and>
            returnedIds (fst (addAgents b cs m)) = map (\<lambda>c. fst (snd c)) cs)"
proof -
  have 4: "\<forall>c \<in> set cs. fst (snd c) \<notin> set (map fst (agents m)) \<and>
                         fst (snd c) \<notin> set (map fst (agentsInfo m))"
    using assms(1,2) by simp
  have 5: "\<forall>c \<in> set cs. \<forall>e \<in> set (agentsInfo m).
             Some (location (snd e)) \<noteq> identityKey b (fst c)"
    using assms(2) by simp
  note st = addAgents_state [OF assms(3,4,5) 4 5]
  have s: "snd (addAgents b cs m) =
      m\<lparr>agents := agents m @ map (\<lambda>c. (fst (snd c), [fst c])) cs,
        agentsInfo := agentsInfo m @
          map (\<lambda>c. (fst (snd c),
                     \<lparr>info_id = fst (snd c), location = the (identityKey b (fst c)),
                      createdAt = snd (snd c), lastActiveAt = snd (snd c)\<rparr>)) cs\<rparr>"
    using st by blast
  have 1: "agents (snd (addAgents b cs m)) = map (\<lambda>c. (fst (snd c), [fst c])) cs"
    unfolding s using assms(1) by simp
  have 2: "map fst (agentsInfo (snd (addAgents b cs m))) = map (\<lambda>c. fst (snd c)) cs"
    unfolding s using assms(2) by (simp add: comp_def)
  have 3: "\<forall>e \<in> set (agents (snd (addAgents b cs m))). length (snd e) = 1"
    unfolding 1 by simp
  have "list_all2 (\<lambda>r c. r = Inr (Some (fst (snd c))) \<or> (\<exists>e. r = Inl e))
       (fst (addAgents b cs m)) cs"
    using st by blast
  then have d: "distinct (returnedIds (fst (addAgents b cs m)))"
    using returnedIds_sub [of "\<lambda>c. fst (snd c)" "fst (addAgents b cs m)" cs] assms(5) by blast
  have q: "fst (addAgents b cs m) = map (\<lambda>c. Inr (Some (fst (snd c)))) cs \<and>
           returnedIds (fst (addAgents b cs m)) = map (\<lambda>c. fst (snd c)) cs"
    if "quiet ''agentSetup'' m"
    using addAgents_fresh [OF assms(3,4,5) 4 5 that] by (simp add: returnedIds_all)
  show ?thesis using 1 2 3 d q by blast
qed

theorem addAgents_uniqueness_witness:
  "agents ex_hub = [] \<and> agentsInfo ex_hub = [] \<and>
   map (\<lambda>c. identityKey ex_browser (fst c)) ex_calls =
     [Some \<lparr>loc_context = ContentScript, loc_tabId = 5, loc_frameId = 0\<rparr>,
      Some \<lparr>loc_context = ContentScript, loc_tabId = 5, loc_frameId = 1\<rparr>,
      Some \<lparr>loc_context = ContentScript, loc_tabId = 6, loc_frameId = 0\<rparr>] \<and>
   distinct (map (\<lambda>c. identityKey ex_browser (fst c)) ex_calls) \<and>
   distinct (map (\<lambda>c. fst (snd c)) ex_calls) \<and> quiet ''agentSetup'' ex_hub \<and>
   fst (addAgents ex_browser ex_calls ex_hub) =
     [Inr (Some ''a1''), Inr (Some ''a2''), Inr (Some ''a3'')] \<and>
   returnedIds (fst (addAgents ex_browser ex_calls ex_hub)) = [''a1'', ''a2'', ''a3''] \<and>
   distinct (returnedIds (fst (addAgents ex_browser ex_calls ex_hub))) \<and>
   agents (snd (addAgents ex_browser ex_calls ex_hub)) =
     [(''a1'', [webPort 1 5 0]), (''a2'', [webPort 2 5 1]), (''a3'', [webPort 3 6 0])]"
proof -
  have h1: "agents ex_hub = []" by (simp add: ex_hub_def on_def new_AgentManager_def)
  have h2: "agentsInfo ex_hub = []" by (simp add: ex_hub_def on_def new_AgentManager_def)
  have k: "map (\<lambda>c. identityKey ex_browser (fst c)) ex_calls =
     [Some \<lparr>loc_context = ContentScript, loc_tabId = 5, loc_frameId = 0\<rparr>,
      Some \<lparr>loc_context = ContentScript, loc_tabId = 5, loc_frameId = 1\<rparr>,
      Some \<lparr>loc_context = ContentScript, loc_tabId = 6, loc_frameId = 0\<rparr>]"
    by code_simp
  have h3: "\<forall>c \<in> set ex_calls. identityKey ex_browser (fst c) \<noteq> None"
  proof
    fix c assume "c \<in> set ex_calls"
    then have "identityKey ex_browser (fst c) \<in> set (map (\<lambda>c. identityKey ex_browser (fst c)) ex_calls)"
      by simp
    then show "identityKey ex_browser (fst c) \<noteq> None" unfolding k by auto
  qed
  have h4: "distinct (map (\<lambda>c. identityKey ex_browser (fst c)) ex_calls)"
    unfolding k by simp
  have h5: "distinct (map (\<lambda>c. fst (snd c)) ex_calls)" by (simp add: ex_calls_def)
  note t = addAgents_uniqueness [OF h1 h2 h3 h4 h5]
  have c1: "fst (addAgents ex_browser ex_calls ex_hub) =
     [Inr (Some ''a1''), Inr (Some ''a2''), Inr (Some ''a3'')]"
    using t ex_hub_quiet by (simp add: ex_calls_def)
  have c2: "returnedIds (fst (addAgents ex_browser ex_calls ex_hub)) = [''a1'', ''a2'', ''a3'']"
    using t ex_hub_quiet by (simp add: ex_calls_def)
  have c3: "distinct (returnedIds (fst (addAgents ex_browser ex_calls ex_hub)))"
    using t by blast
  have c4: "agents (snd (addAgents ex_browser ex_calls ex_hub)) =
     [(''a1'', [webPort 1 5 0]), (''a2'', [webPort 2 5 1]), (''a3'', [webPort 3 6 0])]"
    using t by (simp add: ex_calls_def)
  show ?thesis using h1 h2 k h4 h5 ex_hub_quiet c1 c2 c3 c4 by blast
qed

subsection \<open>Subscription\<close>

lemma fn_add_distinct: "distinct (map fn_ref hs) \<Longrightarrow> distinct (map fn_ref (fn_add h hs))"
  by (simp add: fn_add_def)

lemma fn_add_idem: "fn_add h (fn_add h hs) = fn_add h hs"
  by (simp add: fn_add_def)

lemma fn_add_has: "fn_ref h \<in> set (map fn_ref (fn_add h hs))"
  by (simp add: fn_add_def)

lemma on_on: "on ev h (on ev h m) = on ev h m"
proof (cases "map_of (eventHandlers m) ev")
  case None
  then show ?thesis by (simp add: on_def)
next
  case (Some hs)
  then show ?thesis by (simp add: on_def AList.update_conv' fn_add_idem)
qed

lemma handlersOf_on:
  "map_of (eventHandlers m) ev \<noteq> None \<Longrightarrow>
   handlersOf ev (on ev h m) = fn_add h (handlersOf ev m)"
  by (auto simp: handlersOf_def on_def AList.update_conv')

lemma handlers_addAgent: "eventHandlers (fst (snd (addAgent b p fresh now m))) = eventHandlers m"
proof (cases "identityKey b p")
  case None
  then show ?thesis by (simp add: addAgent_unclassified)
next
  case (Some loc)
  then show ?thesis by (simp add: addAgent_state filed_def)
qed

lemma handlers_removeAgent: "eventHandlers (fst (snd (removeAgent a m))) = eventHandlers m"
  by (simp add: removeAgent_def)

lemma handlers_removePort:
  "eventHandlers (fst (snd (removePortFromAgent a p m))) = eventHandlers m"
  by (simp add: removePort_state split: option.splits)

lemma hwf_on: "hwf m \<Longrightarrow> hwf (on ev h m)"
proof (cases "map_of (eventHandlers m) ev")
  case None
  assume "hwf m"
  then show ?thesis using None by (simp add: on_def)
next
  case (Some hs)
  assume w: "hwf m"
  have d: "distinct (map fst (eventHandlers m))" using w by (simp add: hwf_def)
  have "(ev, hs) \<in> set (eventHandlers m)" using Some by (rule map_of_SomeD)
  then have dh: "distinct (map fn_ref hs)" using w by (auto simp: hwf_def)
  have kin: "ev \<in> set (map fst (eventHandlers m))"
    using Some map_of_keys [of "eventHandlers m" ev] by simp
  have 1: "map fst (AList.update ev (fn_add h hs) (eventHandlers m)) = map fst (eventHandlers m)"
    using kin by (simp add: AList.update_keys del: set_map)
  have 2: "\<forall>e \<in> set (AList.update ev (fn_add h hs) (eventHandlers m)). distinct (map fn_ref (snd e))"
    unfolding set_update_distinct [OF d] using w fn_add_distinct [OF dh] by (auto simp: hwf_def)
  show ?thesis using Some 1 2 w by (simp add: on_def hwf_def)
qed

lemma hwf_step: "hwf m \<Longrightarrow> hwf (step b op m)"
  by (cases op)
    (simp_all add: hwf_on, simp_all add: hwf_def handlers_addAgent handlers_removeAgent
      handlers_removePort)

lemma hwf_run: "hwf m \<Longrightarrow> hwf (run b ops m)"
  unfolding run_def by (induction ops arbitrary: m) (simp_all add: hwf_step)

lemma hwf_new: "hwf new_AgentManager"
  by (simp add: hwf_def new_AgentManager_def)

lemma count_invoked:
  "count_list (map (\<lambda>g. Invoked (fn_ref g) a) hs) (Invoked r a) = count_list (map fn_ref hs) r"
  by (induction hs) auto

lemma count_distinct_once:
  "distinct xs \<Longrightarrow> x \<in> set xs \<Longrightarrow> count_list xs x = 1"
  by (induction xs) (auto simp: count_list_0_iff)

lemma invoked_forEach:
  "Invoked r a' \<in> set (snd (forEach hs a)) \<Longrightarrow> r \<in> set (map fn_ref hs)"
  by (induction hs) (auto split: HandlerResult.splits prod.splits)

lemma count_forEach:
  "distinct (map fn_ref hs) \<Longrightarrow> r \<in> set (map fn_ref hs) \<Longrightarrow>
   \<forall>g \<in> set hs. fn_ref g \<noteq> r \<longrightarrow> fn_run g a = Completes \<Longrightarrow>
   count_list (snd (forEach hs a)) (Invoked r a) = 1"
proof (induction hs)
  case Nil
  then show ?case by simp
next
  case (Cons g gs)
  show ?case
  proof (cases "fn_ref g = r")
    case True
    then have "r \<notin> set (map fn_ref gs)" using Cons.prems(1) by auto
    then have "Invoked r a \<notin> set (snd (forEach gs a))" using invoked_forEach by blast
    then have "count_list (snd (forEach gs a)) (Invoked r a) = 0" by simp
    then show ?thesis using True
      by (cases "fn_run g a"; cases "forEach gs a") simp_all
  next
    case False
    then have c: "fn_run g a = Completes" using Cons.prems(3) by simp
    have "r \<in> set (map fn_ref gs)" using Cons.prems(2) False by auto
    then have "count_list (snd (forEach gs a)) (Invoked r a) = 1"
      using Cons.IH Cons.prems(1,3) by simp
    then show ?thesis using False c by (cases "forEach gs a") simp_all
  qed
qed

lemma hwf_known:
  assumes "hwf m" and "ev \<in> set [''agentSetup'', ''agentMessage'', ''agentDisconnect'']"
  shows "map_of (eventHandlers m) ev = Some (handlersOf ev m) \<and>
         distinct (map fn_ref (handlersOf ev m))"
proof -
  have "ev \<in> set (map fst (eventHandlers m))" using assms by (simp add: hwf_def del: set_map)
  then obtain hs where hs: "map_of (eventHandlers m) ev = Some hs"
    using map_of_keys [of "eventHandlers m" ev] by auto
  then have "(ev, hs) \<in> set (eventHandlers m)" by (rule map_of_SomeD)
  then have "distinct (map fn_ref hs)" using assms(1) by (auto simp: hwf_def)
  then show ?thesis using hs by (simp add: handlersOf_def)
qed

text \<open>
  C10. Subscribing the same function object twice is subscribing it once: the second
  \<open>on\<close> changes nothing. And in every state the manager can reach, for each of the three
  events, an \<open>emit\<close> after the double subscription calls the function exactly once,
  provided that no other handler of the event throws (one that throws ends the
  \<open>emit\<close> before the handlers after it are called).
\<close>

theorem on_idempotent:
  "on ev h (on ev h m) = on ev h m \<and>
   (m = run b ops new_AgentManager \<longrightarrow>
    ev \<in> set [''agentSetup'', ''agentMessage'', ''agentDisconnect''] \<longrightarrow>
    (\<forall>g \<in> set (handlersOf ev m). fn_ref g \<noteq> fn_ref h \<longrightarrow> fn_run g a = Completes) \<longrightarrow>
    count_list (snd (emit ev a (on ev h (on ev h m)))) (Invoked (fn_ref h) a) = 1)"
proof (intro conjI impI)
  show "on ev h (on ev h m) = on ev h m" by (rule on_on)
  assume m: "m = run b ops new_AgentManager"
    and ev: "ev \<in> set [''agentSetup'', ''agentMessage'', ''agentDisconnect'']"
    and q: "\<forall>g \<in> set (handlersOf ev m). fn_ref g \<noteq> fn_ref h \<longrightarrow> fn_run g a = Completes"
  have w: "hwf m" unfolding m by (rule hwf_run [OF hwf_new])
  note k = hwf_known [OF w ev]
  have k': "map_of (eventHandlers (on ev h m)) ev = Some (fn_add h (handlersOf ev m))"
    using k by (simp add: on_def AList.update_conv')
  have d: "distinct (map fn_ref (fn_add h (handlersOf ev m)))"
    using k by (simp add: fn_add_distinct)
  have q': "\<forall>g \<in> set (fn_add h (handlersOf ev m)). fn_ref g \<noteq> fn_ref h \<longrightarrow> fn_run g a = Completes"
    using q by (auto simp: fn_add_def)
  have "count_list (snd (forEach (fn_add h (handlersOf ev m)) a)) (Invoked (fn_ref h) a) = 1"
    using count_forEach [OF d fn_add_has q'] .
  then have "count_list (snd (emit ev a (on ev h m))) (Invoked (fn_ref h) a) = 1"
    using k' by (cases "forEach (fn_add h (handlersOf ev m)) a") (simp add: emit_def)
  then show "count_list (snd (emit ev a (on ev h (on ev h m)))) (Invoked (fn_ref h) a) = 1"
    by (simp add: on_on)
qed

theorem on_idempotent_witness:
  "on ''agentSetup'' ex_listener (on ''agentSetup'' ex_listener ex_registry) =
     on ''agentSetup'' ex_listener ex_registry \<and>
   ''agentSetup'' \<in> set [''agentSetup'', ''agentMessage'', ''agentDisconnect''] \<and>
   handlersOf ''agentSetup'' ex_registry = [ex_listener] \<and>
   count_list
     (snd (emit ''agentSetup'' (SetupArgs ex_info (webPort 1 5 0))
        (on ''agentSetup'' ex_listener (on ''agentSetup'' ex_listener ex_registry))))
     (Invoked (fn_ref ex_listener) (SetupArgs ex_info (webPort 1 5 0))) = 1"
proof -
  note t = on_idempotent [of "''agentSetup''" ex_listener ex_registry ex_browser
      "[Subscribe ''agentSetup'' ex_listener, Subscribe ''agentDisconnect'' ex_listener,
        AddAgent (webPort 1 5 0) ''a1'' 10, AddAgent (webPort 2 5 0) ''a2'' 11,
        AddAgent (webPort 3 6 0) ''a3'' 12]" "SetupArgs ex_info (webPort 1 5 0)"]
  have e: "eventHandlers ex_registry =
      [(''agentSetup'', [ex_listener]), (''agentMessage'', []), (''agentDisconnect'', [ex_listener])]"
    by (simp add: ex_registry_def run_def handlers_addAgent on_def new_AgentManager_def fn_add_def)
  have h: "handlersOf ''agentSetup'' ex_registry = [ex_listener]"
    by (simp add: handlersOf_def e)
  have 1: "on ''agentSetup'' ex_listener (on ''agentSetup'' ex_listener ex_registry) =
     on ''agentSetup'' ex_listener ex_registry"
    using t by blast
  have 2: "''agentSetup'' \<in> set [''agentSetup'', ''agentMessage'', ''agentDisconnect'']" by simp
  have 3: "\<forall>g \<in> set (handlersOf ''agentSetup'' ex_registry).
             fn_ref g \<noteq> fn_ref ex_listener \<longrightarrow>
             fn_run g (SetupArgs ex_info (webPort 1 5 0)) = Completes"
    unfolding h by simp
  have 4: "count_list
     (snd (emit ''agentSetup'' (SetupArgs ex_info (webPort 1 5 0))
        (on ''agentSetup'' ex_listener (on ''agentSetup'' ex_listener ex_registry))))
     (Invoked (fn_ref ex_listener) (SetupArgs ex_info (webPort 1 5 0))) = 1"
    using t ex_registry_def 2 3 by blast
  show ?thesis using 1 2 h 4 by blast
qed

subsection \<open>Zero as a filter value and as a tab id\<close>

lemma queryMatch_zero:
  "queryMatch (q\<lparr>part_tabId := Some 0\<rparr>) e = queryMatch (q\<lparr>part_tabId := None\<rparr>) e"
  "queryMatch (q\<lparr>part_frameId := Some 0\<rparr>) e = queryMatch (q\<lparr>part_frameId := None\<rparr>) e"
  by (simp_all add: queryMatch_def)

text \<open>
  C7 at a failing input. One page is connected, in tab 5 and frame 7. The query
  \<open>{frameId: 0}\<close> returns it, though its frame is not 0, and so does the query
  \<open>{tabId: 0}\<close>, though its tab is not 0: a field that is 0 filters nothing.
\<close>

theorem queryAgents_zero_is_wildcard:
  "queryAgents \<lparr>part_context = None, part_tabId = None, part_frameId = Some 0\<rparr>
     (run ex_browser [AddAgent (webPort 1 5 7) ''a1'' 10] new_AgentManager) =
     [\<lparr>ports = [webPort 1 5 7],
       info = \<lparr>info_id = ''a1'',
               location = \<lparr>loc_context = ContentScript, loc_tabId = 5, loc_frameId = 7\<rparr>,
               createdAt = 10, lastActiveAt = 10\<rparr>\<rparr>] \<and>
   queryAgents \<lparr>part_context = None, part_tabId = Some 0, part_frameId = None\<rparr>
     (run ex_browser [AddAgent (webPort 1 5 7) ''a1'' 10] new_AgentManager) =
     [\<lparr>ports = [webPort 1 5 7],
       info = \<lparr>info_id = ''a1'',
               location = \<lparr>loc_context = ContentScript, loc_tabId = 5, loc_frameId = 7\<rparr>,
               createdAt = 10, lastActiveAt = 10\<rparr>\<rparr>]"
  by code_simp

lemma fallback_identityKey:
  "sender p = Some s \<Longrightarrow> str_or (sender_url s) [] = [] \<Longrightarrow>
   identityKey b p = Some \<lparr>loc_context = Unknown, loc_tabId = - 1, loc_frameId = 0\<rparr>"
  by (simp add: identityKey_def identifyConnectionSource_def determinedLocation_def num_or_def)

text \<open>
  C9 at a failing input. For a port whose sender has no url the classifier answers
  \<open>unknown\<close> with tab id 0, and \<open>addAgent\<close> then files the entity under tab id \<open>-1\<close>:
  \<open>connectionSource.tabId || -1\<close> takes the 0 for an absent value.
\<close>

theorem fallback_filed_under_minus_one:
  "identifyConnectionSource ex_browser ex_noUrl =
     Inr (Some \<lparr>cs_context = Unknown, cs_tabId = Some 0, cs_frameId = None, cs_url = None,
                cs_portName = ''porter''\<rparr>) \<and>
   getAllAgentsInfo (fst (snd (addAgent ex_browser ex_noUrl ''a1'' 10 new_AgentManager))) =
     [\<lparr>info_id = ''a1'',
       location = \<lparr>loc_context = Unknown, loc_tabId = - 1, loc_frameId = 0\<rparr>,
       createdAt = 10, lastActiveAt = 10\<rparr>]"
  by code_simp

end
